theory Spec2Isabelle
  imports Main "HOL-Library.Sublist" "HOL-Library.Multiset"
begin

section \<open>Strings\<close>

text \<open>
  A JavaScript string is modelled as the list of its UTF-16 code units, restricted to the
  units below 256 (the type \<^typ>\<open>char\<close>). Within that range the white space of
  \<^verbatim>\<open>\s\<close> and of \<^verbatim>\<open>trim()\<close> is TAB, LF, VT, FF, CR, SPACE and NBSP; the word
  characters of \<^verbatim>\<open>\b\<close> are \<^verbatim>\<open>[A-Za-z0-9_]\<close>.
\<close>

definition is_space :: "char \<Rightarrow> bool" where
  "is_space c = (c \<in> set [CHR 0x09, CHR 0x0A, CHR 0x0B, CHR 0x0C, CHR 0x0D, CHR 0x20, CHR 0xA0])"

definition is_digit :: "char \<Rightarrow> bool" where
  "is_digit c = (c \<in> set ''0123456789'')"

definition upper_letters :: string where
  "upper_letters = ''ABCDEFGHIJKLMNOPQRSTUVWXYZ''"

definition lower_letters :: string where
  "lower_letters = ''abcdefghijklmnopqrstuvwxyz''"

definition is_upper :: "char \<Rightarrow> bool" where
  "is_upper c = (c \<in> set upper_letters)"

definition is_lower :: "char \<Rightarrow> bool" where
  "is_lower c = (c \<in> set lower_letters)"

definition is_word :: "char \<Rightarrow> bool" where
  "is_word c = (is_upper c \<or> is_lower c \<or> is_digit c \<or> c = CHR ''_'')"

text \<open>The canonical form a regular expression with the \<^verbatim>\<open>i\<close> flag compares by. Every
  literal of the patterns below is ASCII, and an ASCII letter is matched, ignoring case,
  only by its own two ASCII forms.\<close>

definition fold_char :: "char \<Rightarrow> char" where
  "fold_char c = (case map_of (zip upper_letters lower_letters) c of Some l \<Rightarrow> l | None \<Rightarrow> c)"

text \<open>\<^verbatim>\<open>toLowerCase()\<close> on one code unit: A-Z, and the Latin-1 capitals 0xC0-0xDE
  other than the multiplication sign 0xD7, each 32 below its small letter.\<close>

definition latin1_upper :: string where
  "latin1_upper =
     [CHR 0xC0, CHR 0xC1, CHR 0xC2, CHR 0xC3, CHR 0xC4, CHR 0xC5, CHR 0xC6, CHR 0xC7,
      CHR 0xC8, CHR 0xC9, CHR 0xCA, CHR 0xCB, CHR 0xCC, CHR 0xCD, CHR 0xCE, CHR 0xCF,
      CHR 0xD0, CHR 0xD1, CHR 0xD2, CHR 0xD3, CHR 0xD4, CHR 0xD5, CHR 0xD6,
      CHR 0xD8, CHR 0xD9, CHR 0xDA, CHR 0xDB, CHR 0xDC, CHR 0xDD, CHR 0xDE]"

definition latin1_lower :: string where
  "latin1_lower =
     [CHR 0xE0, CHR 0xE1, CHR 0xE2, CHR 0xE3, CHR 0xE4, CHR 0xE5, CHR 0xE6, CHR 0xE7,
      CHR 0xE8, CHR 0xE9, CHR 0xEA, CHR 0xEB, CHR 0xEC, CHR 0xED, CHR 0xEE, CHR 0xEF,
      CHR 0xF0, CHR 0xF1, CHR 0xF2, CHR 0xF3, CHR 0xF4, CHR 0xF5, CHR 0xF6,
      CHR 0xF8, CHR 0xF9, CHR 0xFA, CHR 0xFB, CHR 0xFC, CHR 0xFD, CHR 0xFE]"

definition lower_char :: "char \<Rightarrow> char" where
  "lower_char c =
     (case map_of (zip (upper_letters @ latin1_upper) (lower_letters @ latin1_lower)) c of
        Some l \<Rightarrow> l
      | None \<Rightarrow> c)"

definition toLowerCase :: "string \<Rightarrow> string" where
  "toLowerCase s = map lower_char s"

definition trim :: "string \<Rightarrow> string" where
  "trim s = rev (dropWhile is_space (rev (dropWhile is_space s)))"

text \<open>\<^verbatim>\<open>s.includes(t)\<close>: \<open>t\<close> occurs in \<open>s\<close> as a contiguous substring.\<close>

fun starts_with :: "string \<Rightarrow> string \<Rightarrow> bool" where
  "starts_with s [] = True"
| "starts_with [] (y # ys) = False"
| "starts_with (x # xs) (y # ys) = (x = y \<and> starts_with xs ys)"

fun str_includes :: "string \<Rightarrow> string \<Rightarrow> bool" where
  "str_includes [] t = (t = [])"
| "str_includes (x # xs) t = (starts_with (x # xs) t \<or> str_includes xs t)"

section \<open>Regular expressions\<close>

text \<open>
  The patterns of the scripts use literals, the classes \<^verbatim>\<open>\s\<close>, \<^verbatim>\<open>\d\<close> and
  bracket sets (a range such as \<^verbatim>\<open>[a-z]\<close> is written out), sequence, alternation, the greedy quantifiers \<^verbatim>\<open>* + ?\<close> and the
  assertions \<^verbatim>\<open>^ $ \b\<close>. A matcher state is the code unit before the current position
  (if any) and the rest of the input. \<open>ends\<close> lists the states a pattern can stop in, in
  the order the backtracking matcher of ECMAScript tries them: the left alternative
  first, the longer repetition first, and no iteration of a repetition that consumes
  nothing.
\<close>

datatype rx =
    Chr char
  | Space
  | Digit
  | OneOf string
  | Seq rx rx
  | Alt rx rx
  | Star rx
  | Opt rx
  | Bol
  | Eol
  | WordB
  | Eps

type_synonym mstate = "char option \<times> string"

definition cls_match :: "bool \<Rightarrow> rx \<Rightarrow> char \<Rightarrow> bool" where
  "cls_match ci r x =
     (case r of
        Chr c \<Rightarrow> (if ci then fold_char x = fold_char c else x = c)
      | Space \<Rightarrow> is_space x
      | Digit \<Rightarrow> is_digit x
      | OneOf cs \<Rightarrow> (if ci then fold_char x \<in> set (map fold_char cs) else x \<in> set cs)
      | _ \<Rightarrow> False)"

definition step_cls :: "bool \<Rightarrow> rx \<Rightarrow> mstate \<Rightarrow> mstate list" where
  "step_cls ci r st =
     (case snd st of
        [] \<Rightarrow> []
      | x # xs \<Rightarrow> if cls_match ci r x then [(Some x, xs)] else [])"

definition at_word_boundary :: "mstate \<Rightarrow> bool" where
  "at_word_boundary st =
     ((case fst st of None \<Rightarrow> False | Some p \<Rightarrow> is_word p) \<noteq>
      (case snd st of [] \<Rightarrow> False | x # _ \<Rightarrow> is_word x))"

function ends :: "bool \<Rightarrow> rx \<Rightarrow> mstate \<Rightarrow> mstate list" where
  "ends ci (Chr c) st = step_cls ci (Chr c) st"
| "ends ci Space st = step_cls ci Space st"
| "ends ci Digit st = step_cls ci Digit st"
| "ends ci (OneOf cs) st = step_cls ci (OneOf cs) st"
| "ends ci (Seq r1 r2) st = concat (map (\<lambda>st'. ends ci r2 st') (ends ci r1 st))"
| "ends ci (Alt r1 r2) st = ends ci r1 st @ ends ci r2 st"
| "ends ci (Star r) st =
     concat (map (\<lambda>st'. ends ci (Star r) st')
                 (filter (\<lambda>st'. length (snd st') < length (snd st)) (ends ci r st))) @ [st]"
| "ends ci (Opt r) st = ends ci r st @ [st]"
| "ends ci Bol st = (if fst st = None then [st] else [])"
| "ends ci Eol st = (if snd st = [] then [st] else [])"
| "ends ci WordB st = (if at_word_boundary st then [st] else [])"
| "ends ci Eps st = [st]"
  by pat_completeness auto
termination
  by (relation "inv_image (less_than <*lex*> less_than)
                  (\<lambda>(ci, r, st). (size r, length (snd st)))") auto

definition Plus :: "rx \<Rightarrow> rx" where
  "Plus r = Seq r (Star r)"

fun lit :: "string \<Rightarrow> rx" where
  "lit [] = Eps"
| "lit (c # cs) = Seq (Chr c) (lit cs)"

fun seqs :: "rx list \<Rightarrow> rx" where
  "seqs [] = Eps"
| "seqs (r # rs) = Seq r (seqs rs)"

fun alts :: "rx list \<Rightarrow> rx" where
  "alts [] = Eps"
| "alts [r] = r"
| "alts (r # rs) = Alt r (alts rs)"

text \<open>The first match starting at a state, as the state after the match.\<close>

definition match_here :: "bool \<Rightarrow> rx \<Rightarrow> mstate \<Rightarrow> mstate option" where
  "match_here ci r st = (case ends ci r st of [] \<Rightarrow> None | e # _ \<Rightarrow> Some e)"

text \<open>\<^verbatim>\<open>pattern.test(s)\<close>: the pattern matches at some position.\<close>

fun test_from :: "bool \<Rightarrow> rx \<Rightarrow> char option \<Rightarrow> string \<Rightarrow> bool" where
  "test_from ci r p [] = (match_here ci r (p, []) \<noteq> None)"
| "test_from ci r p (x # xs) =
     (match_here ci r (p, x # xs) \<noteq> None \<or> test_from ci r (Some x) xs)"

definition rx_test :: "bool \<Rightarrow> rx \<Rightarrow> string \<Rightarrow> bool" where
  "rx_test ci r s = test_from ci r None s"

text \<open>\<^verbatim>\<open>s.replace(pattern, rep)\<close> without the \<^verbatim>\<open>g\<close> flag: the leftmost match only.\<close>

fun replace_first_from :: "bool \<Rightarrow> rx \<Rightarrow> string \<Rightarrow> char option \<Rightarrow> string \<Rightarrow> string" where
  "replace_first_from ci r rep p [] =
     (case match_here ci r (p, []) of None \<Rightarrow> [] | Some e \<Rightarrow> rep @ snd e)"
| "replace_first_from ci r rep p (x # xs) =
     (case match_here ci r (p, x # xs) of
        None \<Rightarrow> x # replace_first_from ci r rep (Some x) xs
      | Some e \<Rightarrow> rep @ snd e)"

definition replace_first :: "bool \<Rightarrow> rx \<Rightarrow> string \<Rightarrow> string \<Rightarrow> string" where
  "replace_first ci r rep s = replace_first_from ci r rep None s"

text \<open>With the \<^verbatim>\<open>g\<close> flag: every match, left to right, each search resuming where
  the previous match stopped (one unit further after an empty match).\<close>

function replace_all_from :: "bool \<Rightarrow> rx \<Rightarrow> string \<Rightarrow> char option \<Rightarrow> string \<Rightarrow> string" where
  "replace_all_from ci r rep p s =
     (case match_here ci r (p, s) of
        None \<Rightarrow> (case s of [] \<Rightarrow> [] | x # xs \<Rightarrow> x # replace_all_from ci r rep (Some x) xs)
      | Some e \<Rightarrow>
          if length (snd e) < length s then rep @ replace_all_from ci r rep (fst e) (snd e)
          else rep @ (case s of [] \<Rightarrow> []
                      | x # xs \<Rightarrow> x # replace_all_from ci r rep (Some x) xs))"
  by pat_completeness auto
termination
  by (relation "measure (\<lambda>(ci, r, rep, p, s). length s)") auto

declare replace_all_from.simps [simp del]

definition replace_all :: "bool \<Rightarrow> rx \<Rightarrow> string \<Rightarrow> string \<Rightarrow> string" where
  "replace_all ci r rep s = replace_all_from ci r rep None s"

section \<open>Name normalisation and fuzzy name matching\<close>

text \<open>\<^verbatim>\<open>/\.(pdf|pptx?|docx?|xlsx?|gslides?|gdocs?|gsheet?)$/i\<close>\<close>

definition rx_extension :: rx where
  "rx_extension =
     seqs [Chr CHR ''.'',
           alts [lit ''pdf'',
                 Seq (lit ''ppt'') (Opt (Chr CHR ''x'')),
                 Seq (lit ''doc'') (Opt (Chr CHR ''x'')),
                 Seq (lit ''xls'') (Opt (Chr CHR ''x'')),
                 Seq (lit ''gslide'') (Opt (Chr CHR ''s'')),
                 Seq (lit ''gdoc'') (Opt (Chr CHR ''s'')),
                 Seq (lit ''gshee'') (Opt (Chr CHR ''t''))],
           Eol]"

text \<open>\<^verbatim>\<open>/\(copy\s*\d*\)/\<close>\<close>

definition rx_copy :: rx where
  "rx_copy = seqs [lit ''(copy'', Star Space, Star Digit, Chr CHR '')'']"

text \<open>\<^verbatim>\<open>/\s+version\s+\d+/\<close>\<close>

definition rx_version :: rx where
  "rx_version = seqs [Plus Space, lit ''version'', Plus Space, Plus Digit]"

text \<open>
  The \<^verbatim>\<open>normalizeName\<close> local to \<^verbatim>\<open>detectDuplicates\<close>, whose second step is
  \<^verbatim>\<open>/[_\-\s]+/g\<close>.
\<close>

definition detectDuplicates_normalizeName :: "string \<Rightarrow> string" where
  "detectDuplicates_normalizeName fileName =
     trim (toLowerCase
       (replace_all True rx_version []
       (replace_all True rx_copy []
       (replace_all False (Plus (Alt (OneOf ''_-'') Space)) '' ''
       (replace_first True rx_extension [] fileName)))))"

text \<open>
  The method \<^verbatim>\<open>normalizeName\<close> of the class, used by \<^verbatim>\<open>isSimilarName\<close>. Its
  patterns, in order:
  \<^verbatim>\<open>/[_\-:]+/g\<close>, \<^verbatim>\<open>/\(copy\s*\d*\)/gi\<close>, \<^verbatim>\<open>/\s+v[a-z]\b/gi\<close>,
  \<^verbatim>\<open>/\s+v\d+(\.\d+)*/gi\<close>, \<^verbatim>\<open>/\s+_v\d+(\.\d+)*/gi\<close>, \<^verbatim>\<open>/\s+version\s+\d+/gi\<close>,
  \<^verbatim>\<open>/\bquarterly\s+industry\s+trends\b/gi\<close>,
  \<^verbatim>\<open>/\bthe\s+state\s+of\s+retail\s+ecommerce\b/gi\<close>, \<^verbatim>\<open>/\bindustry\s*trends\b/gi\<close>,
  \<^verbatim>\<open>/\bgen\s+ai\b/gi\<close>, \<^verbatim>\<open>/\bai\s+goal\s+optimizer\b/gi\<close>, \<^verbatim>\<open>/\b202[0-9]\b/gi\<close>,
  then \<^verbatim>\<open>toLowerCase()\<close>, \<^verbatim>\<open>/\s+/g\<close> and \<^verbatim>\<open>trim()\<close>.
\<close>

definition rx_dotted_digits :: rx where
  "rx_dotted_digits = Seq (Plus Digit) (Star (Seq (Chr CHR ''.'') (Plus Digit)))"

definition normalizeName :: "string \<Rightarrow> string" where
  "normalizeName fileName =
     trim
       (replace_all False (Plus Space) '' ''
       (toLowerCase
       (replace_all True (seqs [WordB, lit ''202'', Digit, WordB]) []
       (replace_all True
          (seqs [WordB, lit ''ai'', Plus Space, lit ''goal'', Plus Space, lit ''optimizer'', WordB])
          ''aigo''
       (replace_all True (seqs [WordB, lit ''gen'', Plus Space, lit ''ai'', WordB])
          ''generative ai''
       (replace_all True (seqs [WordB, lit ''industry'', Star Space, lit ''trends'', WordB])
          ''state of retail ecommerce''
       (replace_all True
          (seqs [WordB, lit ''the'', Plus Space, lit ''state'', Plus Space, lit ''of'',
                 Plus Space, lit ''retail'', Plus Space, lit ''ecommerce'', WordB])
          ''state of retail ecommerce''
       (replace_all True
          (seqs [WordB, lit ''quarterly'', Plus Space, lit ''industry'', Plus Space,
                 lit ''trends'', WordB])
          ''state of retail ecommerce''
       (replace_all True rx_version []
       (replace_all True (seqs [Plus Space, lit ''_v'', rx_dotted_digits]) []
       (replace_all True (seqs [Plus Space, Chr CHR ''v'', rx_dotted_digits]) []
       (replace_all True
          (seqs [Plus Space, Chr CHR ''v'', OneOf lower_letters, WordB]) []
       (replace_all True rx_copy []
       (replace_all False (Plus (OneOf ''_-:'')) '' ''
       (replace_first True rx_extension [] fileName)))))))))))))))"

text \<open>
  \<^verbatim>\<open>isSimilarName(name1, name2)\<close>: equal after normalisation, or one normalised name
  contains the other when at least one of them has 30 code units or more.
\<close>

definition isSimilarName :: "string \<Rightarrow> string \<Rightarrow> bool" where
  "isSimilarName name1 name2 =
     (let n1 = normalizeName name1; n2 = normalizeName name2 in
      if n1 = n2 then True
      else if length n1 \<ge> 30 \<or> length n2 \<ge> 30
           then (if str_includes n1 n2 \<or> str_includes n2 n1 then True else False)
           else False)"

section \<open>Data model\<close>

text \<open>
  Times. A Drive timestamp (\<^verbatim>\<open>modifiedTime\<close>, an RFC 3339 string in UTC) is modelled by
  the number \<^verbatim>\<open>new Date(...)\<close> compares by: milliseconds since the epoch. A calendar
  date \<^verbatim>\<open>YYYY-MM-DD\<close>, as stored under \<^verbatim>\<open>File.modifiedDate\<close> and
  \<^verbatim>\<open>File.lastSyncDate\<close>, is modelled by its day number; the string order of two such
  dates is the order of their day numbers. \<^verbatim>\<open>ts.split('T')[0]\<close> is \<open>date_of\<close> and
  \<^verbatim>\<open>new Date(d + 'T00:00:00Z')\<close> is \<open>start_of_day\<close>.
\<close>

definition ms_per_day :: int where
  "ms_per_day = 24 * 60 * 60 * 1000"

definition date_of :: "int \<Rightarrow> int" where
  "date_of ts = ts div ms_per_day"

definition start_of_day :: "int \<Rightarrow> int" where
  "start_of_day d = d * ms_per_day"

text \<open>
  A file of the Drive listing. The listing delivers \<^verbatim>\<open>size\<close> and \<^verbatim>\<open>version\<close> as
  decimal strings, so each is truthy whenever present; both enter arithmetic and
  comparisons as the number they denote.
\<close>

record drive_file =
  file_id :: string
  file_name :: string
  mimeType :: string
  modifiedTime :: int
  createdTime :: "int option"
  webViewLink :: "string option"
  file_size :: "nat option"
  file_version :: "nat option"
  md5Checksum :: "string option"
  file_path :: string
  folderId :: string

text \<open>The metadata of a vector, one field per key the scripts read or write; \<open>None\<close>
  is a key the record does not carry.\<close>

record metadata =
  File_id :: "string option"
  File_name :: "string option"
  File_webviewlink :: "string option"
  File_createdDate :: "int option"
  File_modifiedDate :: "int option"
  File_lastSyncDate :: "int option"
  File_version :: "nat option"
  File_md5 :: "string option"
  File_size :: "nat option"
  chunk_text :: string
  blobType :: string
  loc_lines_from :: nat
  loc_lines_to :: nat

type_synonym embedding = "int list"

record vector =
  vector_id :: string
  vector_values :: embedding
  vector_metadata :: metadata

text \<open>Truthiness of an optional string: present and not empty.\<close>

definition truthy :: "string option \<Rightarrow> bool" where
  "truthy s = (case s of None \<Rightarrow> False | Some x \<Rightarrow> x \<noteq> [])"

section \<open>Index State Loader\<close>

text \<open>The object \<^verbatim>\<open>loadPineconeState\<close> stores per document.\<close>

record pinecone_data =
  pd_File_id :: "string option"
  pd_File_name :: "string option"
  pd_File_modifiedDate :: "int option"
  pd_File_lastSyncDate :: "int option"
  pd_File_version :: nat
  pd_File_md5 :: "string option"
  pd_File_size :: "nat option"
  vectorCount :: nat
  hasFileId :: bool

text \<open>A JavaScript \<^verbatim>\<open>Map\<close> keyed by strings, in insertion order.\<close>

type_synonym 'v js_map = "(string \<times> 'v) list"

definition map_has :: "'v js_map \<Rightarrow> string \<Rightarrow> bool" where
  "map_has m k = (map_of m k \<noteq> None)"

definition map_get :: "'v js_map \<Rightarrow> string \<Rightarrow> 'v option" where
  "map_get m k = map_of m k"

definition map_set :: "'v js_map \<Rightarrow> string \<Rightarrow> 'v \<Rightarrow> 'v js_map" where
  "map_set m k v =
     (if map_has m k then map (\<lambda>(k', v'). if k' = k then (k', v) else (k', v')) m
      else m @ [(k, v)])"

definition map_values :: "'v js_map \<Rightarrow> 'v list" where
  "map_values m = map snd m"

record pinecone_state =
  pineconeFiles :: "pinecone_data js_map"
  pineconeFilesByName :: "pinecone_data js_map"
  latestSyncDate :: "int option"

definition new_pinecone_data :: "vector \<Rightarrow> string option \<Rightarrow> bool \<Rightarrow> pinecone_data" where
  "new_pinecone_data match fileId has =
     \<lparr> pd_File_id = fileId,
       pd_File_name = File_name (vector_metadata match),
       pd_File_modifiedDate = File_modifiedDate (vector_metadata match),
       pd_File_lastSyncDate = File_lastSyncDate (vector_metadata match),
       pd_File_version = (case File_version (vector_metadata match) of None \<Rightarrow> 0 | Some v \<Rightarrow> v),
       pd_File_md5 = File_md5 (vector_metadata match),
       pd_File_size = File_size (vector_metadata match),
       vectorCount = 1,
       hasFileId = has \<rparr>"

definition count_vector :: "pinecone_data js_map \<Rightarrow> string \<Rightarrow> vector \<Rightarrow> string option \<Rightarrow> bool
                              \<Rightarrow> pinecone_data js_map" where
  "count_vector m k match fileId has =
     (case map_get m k of
        None \<Rightarrow> map_set m k (new_pinecone_data match fileId has)
      | Some d \<Rightarrow> map_set m k (d\<lparr>vectorCount := vectorCount d + 1\<rparr>))"

text \<open>One iteration of the loop over \<^verbatim>\<open>sampleResults.matches\<close>.\<close>

definition load_match :: "pinecone_state \<Rightarrow> vector \<Rightarrow> pinecone_state" where
  "load_match st match =
     (let fileId = File_id (vector_metadata match);
          fileName = File_name (vector_metadata match);
          lastSyncDate = File_lastSyncDate (vector_metadata match);
          st1 = (case lastSyncDate of
                   None \<Rightarrow> st
                 | Some d \<Rightarrow>
                     (case latestSyncDate st of
                        None \<Rightarrow> st\<lparr>latestSyncDate := Some d\<rparr>
                      | Some l \<Rightarrow> if d > l then st\<lparr>latestSyncDate := Some d\<rparr> else st))
      in
      if truthy fileId
      then st1\<lparr>pineconeFiles :=
                  count_vector (pineconeFiles st1) (the fileId) match fileId True\<rparr>
      else if truthy fileName
      then st1\<lparr>pineconeFilesByName :=
                  count_vector (pineconeFilesByName st1) (the fileName) match None False\<rparr>
      else st1)"

definition empty_state :: pinecone_state where
  "empty_state = \<lparr> pineconeFiles = [], pineconeFilesByName = [], latestSyncDate = None \<rparr>"

text \<open>\<^verbatim>\<open>loadPineconeState\<close>, given the matches its query returned.\<close>

definition load_matches :: "vector list \<Rightarrow> pinecone_state" where
  "load_matches matches = foldl load_match empty_state matches"

section \<open>Filter Stage\<close>

definition nameFilters :: "(bool \<times> rx) list" where
  "nameFilters =
     [(True, lit ''archived''),
      (True, lit ''(old)''),
      (True, lit ''deprecated''),
      (True, Seq Bol (lit ''Copy of'')),
      (True, rx_copy),
      (False, lit ''~$'')]"

definition shouldSkipFile :: "drive_file \<Rightarrow> bool" where
  "shouldSkipFile file =
     (if list_ex (\<lambda>(ci, pat). rx_test ci pat (file_name file)) nameFilters then True
      else if rx_test True (seqs [lit ''case'', Star Space, lit ''study'']) (file_name file) \<and>
              \<not> rx_test True (lit ''case study slide library'') (file_name file) then True
      else if file_name file = ''Profitero Comparison'' then True
      else False)"

definition indexableMimeTypes :: "string list" where
  "indexableMimeTypes =
     [''application/vnd.google-apps.document'',
      ''application/vnd.google-apps.presentation'',
      ''application/vnd.google-apps.spreadsheet'',
      ''application/pdf'']"

definition keep_file :: "drive_file \<Rightarrow> bool" where
  "keep_file file =
     (if mimeType file = ''application/vnd.google-apps.shortcut'' then False
      else if shouldSkipFile file then False
      else if mimeType file \<notin> set indexableMimeTypes then False
      else True)"

definition filterFiles :: "drive_file list \<Rightarrow> drive_file list" where
  "filterFiles files = filter keep_file files"

section \<open>Duplicate Resolver\<close>

definition mimeTypePriority :: "string list" where
  "mimeTypePriority =
     [''application/vnd.google-apps.presentation'',
      ''application/vnd.google-apps.document'',
      ''application/vnd.google-apps.spreadsheet'',
      ''application/pdf'',
      ''application/vnd.openxmlformats-officedocument.presentationml.presentation'']"

text \<open>\<^verbatim>\<open>xs.indexOf(x)\<close>: the first index of \<open>x\<close>, or -1.\<close>

fun indexOf :: "'a list \<Rightarrow> 'a \<Rightarrow> int" where
  "indexOf [] x = - 1"
| "indexOf (y # ys) x =
     (if y = x then 0 else (let i = indexOf ys x in if i < 0 then - 1 else i + 1))"

text \<open>The comparator handed to \<^verbatim>\<open>group.sort\<close>.\<close>

definition compare_files :: "drive_file \<Rightarrow> drive_file \<Rightarrow> int" where
  "compare_files a b =
     (let priorityA = indexOf mimeTypePriority (mimeType a);
          priorityB = indexOf mimeTypePriority (mimeType b)
      in if priorityA = priorityB then modifiedTime b - modifiedTime a
         else priorityA - priorityB)"

text \<open>
  \<^verbatim>\<open>Array.prototype.sort\<close> with a comparator is a stable sort: an element goes
  behind every element already placed that does not compare greater than it.
\<close>

fun insert_sorted :: "('a \<Rightarrow> 'a \<Rightarrow> int) \<Rightarrow> 'a \<Rightarrow> 'a list \<Rightarrow> 'a list" where
  "insert_sorted cmp x [] = [x]"
| "insert_sorted cmp x (y # ys) =
     (if cmp x y < 0 then x # y # ys else y # insert_sorted cmp x ys)"

definition js_sort :: "('a \<Rightarrow> 'a \<Rightarrow> int) \<Rightarrow> 'a list \<Rightarrow> 'a list" where
  "js_sort cmp xs = foldl (\<lambda>acc x. insert_sorted cmp x acc) [] xs"

text \<open>The first loop of \<^verbatim>\<open>detectDuplicates\<close>: a map from normalised name to the files
  carrying it, in order of arrival.\<close>

definition add_to_group :: "drive_file list js_map \<Rightarrow> drive_file \<Rightarrow> drive_file list js_map" where
  "add_to_group groups file =
     (let normalizedName = detectDuplicates_normalizeName (file_name file);
          groups1 = (if \<not> map_has groups normalizedName then map_set groups normalizedName []
                     else groups)
      in map_set groups1 normalizedName (the (map_get groups1 normalizedName) @ [file]))"

definition group_files :: "drive_file list \<Rightarrow> drive_file list js_map" where
  "group_files files = foldl add_to_group [] files"

text \<open>The winner of a group: its only member, or the first after sorting. A group
  is created by the arrival of a file, so none is empty.\<close>

definition winner_of :: "drive_file list \<Rightarrow> drive_file list" where
  "winner_of grp = (if length grp = 1 then [grp ! 0] else take 1 (js_sort compare_files grp))"

definition detectDuplicates :: "drive_file list \<Rightarrow> drive_file list" where
  "detectDuplicates files = concat (map (\<lambda>(name, grp). winner_of grp) (group_files files))"

text \<open>The key a file is grouped under, and its rank in the format priority list.\<close>

abbreviation group_key :: "drive_file \<Rightarrow> string" where
  "group_key f \<equiv> detectDuplicates_normalizeName (file_name f)"

abbreviation priority :: "drive_file \<Rightarrow> int" where
  "priority f \<equiv> indexOf mimeTypePriority (mimeType f)"

section \<open>Change Classifier\<close>

text \<open>An exception thrown by the script or by a collaborator, with its message.\<close>

datatype error = Thrown string

text \<open>
  The cutoff of \<^verbatim>\<open>classifyChanges\<close>: the start of the latest sync date, or 30 days
  before \<open>now\<close> (the value of \<^verbatim>\<open>Date.now()\<close>) when the index carries no sync date.
\<close>

definition cutoffDate :: "int \<Rightarrow> int option \<Rightarrow> int" where
  "cutoffDate now latest =
     (case latest of
        Some d \<Rightarrow> start_of_day d
      | None \<Rightarrow> now - 30 * 24 * 60 * 60 * 1000)"

definition allPineconeFiles :: "pinecone_state \<Rightarrow> pinecone_data list" where
  "allPineconeFiles st = map_values (pineconeFiles st) @ map_values (pineconeFilesByName st)"

text \<open>
  \<^verbatim>\<open>allPineconeFiles.find(p => this.isSimilarName(file.name, p['File.name']))\<close>.
  A document without a name makes \<^verbatim>\<open>normalizeName\<close> call \<^verbatim>\<open>replace\<close> on
  \<^verbatim>\<open>undefined\<close>, which throws a \<^verbatim>\<open>TypeError\<close>, unless an earlier document matched.
\<close>

fun find_similar :: "string \<Rightarrow> pinecone_data list \<Rightarrow> error + pinecone_data option" where
  "find_similar n [] = Inr None"
| "find_similar n (p # ps) =
     (case pd_File_name p of
        None \<Rightarrow> Inl (Thrown ''Cannot read properties of undefined (reading 'replace')'')
      | Some pn \<Rightarrow> if isSimilarName n pn then Inr (Some p) else find_similar n ps)"

text \<open>The three lookups of the loop body, in order: by id, by exact name among the
  legacy documents, by similar name among all documents.\<close>

definition find_pineconeData :: "pinecone_state \<Rightarrow> drive_file \<Rightarrow> error + pinecone_data option" where
  "find_pineconeData st file =
     (case map_get (pineconeFiles st) (file_id file) of
        Some d \<Rightarrow> Inr (Some d)
      | None \<Rightarrow>
          (case map_get (pineconeFilesByName st) (file_name file) of
             Some d \<Rightarrow> Inr (Some d)
           | None \<Rightarrow> find_similar (file_name file) (allPineconeFiles st)))"

record signals =
  versionChanged :: bool
  dateChanged :: bool
  hashChanged :: bool
  nameChanged :: bool
  sizeChanged :: bool

text \<open>
  The signals. \<^verbatim>\<open>new Date(undefined + 'T00:00:00Z')\<close> is an invalid date, which
  compares false with everything; the name of a matched document may be absent.
\<close>

definition compute_signals :: "drive_file \<Rightarrow> pinecone_data \<Rightarrow> signals" where
  "compute_signals file pineconeData =
     \<lparr> versionChanged =
         (case file_version file of
            None \<Rightarrow> False
          | Some v \<Rightarrow> pd_File_version pineconeData \<noteq> 0 \<and> v > pd_File_version pineconeData),
       dateChanged =
         (case pd_File_modifiedDate pineconeData of
            None \<Rightarrow> False
          | Some d \<Rightarrow> modifiedTime file > start_of_day d),
       hashChanged =
         (truthy (md5Checksum file) \<and> truthy (pd_File_md5 pineconeData) \<and>
          md5Checksum file \<noteq> pd_File_md5 pineconeData),
       nameChanged = (Some (file_name file) \<noteq> pd_File_name pineconeData),
       sizeChanged =
         (case file_size file of
            None \<Rightarrow> False
          | Some s \<Rightarrow>
              (case pd_File_size pineconeData of
                 None \<Rightarrow> False
               | Some t \<Rightarrow> t \<noteq> 0 \<and> abs (int s - int t) > 100)) \<rparr>"

text \<open>What the loop body decides for one file: the array it pushes to, and what it
  pushes.\<close>

datatype verdict =
    NEW
  | UNCHANGED string
  | MODIFIED_legacy pinecone_data
  | MODIFIED signals pinecone_data

definition classify_file :: "int \<Rightarrow> pinecone_state \<Rightarrow> drive_file \<Rightarrow> error + verdict" where
  "classify_file now st file =
     (case find_pineconeData st file of
        Inl e \<Rightarrow> Inl e
      | Inr None \<Rightarrow> Inr NEW
      | Inr (Some pineconeData) \<Rightarrow>
          if modifiedTime file \<le> cutoffDate now (latestSyncDate st)
          then Inr (UNCHANGED ''Not modified since last sync'')
          else if \<not> hasFileId pineconeData
          then Inr (MODIFIED_legacy pineconeData)
          else (let s = compute_signals file pineconeData in
                if versionChanged s \<or> hashChanged s \<or> sizeChanged s \<or> dateChanged s
                then Inr (MODIFIED s pineconeData)
                else Inr (UNCHANGED ''No changes detected'')))"

record classification =
  newFiles :: "drive_file list"
  modifiedFiles :: "(drive_file \<times> verdict) list"
  unchangedFiles :: "(drive_file \<times> string) list"

definition push_verdict :: "classification \<Rightarrow> drive_file \<Rightarrow> verdict \<Rightarrow> classification" where
  "push_verdict c file v =
     (case v of
        NEW \<Rightarrow> c\<lparr>newFiles := newFiles c @ [file]\<rparr>
      | UNCHANGED reason \<Rightarrow> c\<lparr>unchangedFiles := unchangedFiles c @ [(file, reason)]\<rparr>
      | _ \<Rightarrow> c\<lparr>modifiedFiles := modifiedFiles c @ [(file, v)]\<rparr>)"

fun classify_loop :: "int \<Rightarrow> pinecone_state \<Rightarrow> classification \<Rightarrow> drive_file list
                        \<Rightarrow> error + classification" where
  "classify_loop now st c [] = Inr c"
| "classify_loop now st c (file # files) =
     (case classify_file now st file of
        Inl e \<Rightarrow> Inl e
      | Inr v \<Rightarrow> classify_loop now st (push_verdict c file v) files)"

definition classifyChanges :: "int \<Rightarrow> drive_file list \<Rightarrow> pinecone_state \<Rightarrow> error + classification" where
  "classifyChanges now driveFiles st =
     classify_loop now st \<lparr> newFiles = [], modifiedFiles = [], unchangedFiles = [] \<rparr> driveFiles"

section \<open>Chunking\<close>

definition newline :: char where
  "newline = CHR 0x0A"

text \<open>\<^verbatim>\<open>text.split('\n')\<close>: the pieces between line feeds, one more than there are
  line feeds.\<close>

fun split_lines :: "string \<Rightarrow> string list" where
  "split_lines [] = [[]]"
| "split_lines (c # cs) =
     (if c = newline then [] # split_lines cs
      else (case split_lines cs of
              [] \<Rightarrow> [[c]]
            | l # ls \<Rightarrow> (c # l) # ls))"

record chunk =
  chunk_body :: string
  lineFrom :: nat
  lineTo :: nat

text \<open>\<^verbatim>\<open>currentLines[0] || 1\<close> and \<^verbatim>\<open>currentLines[currentLines.length - 1] || 1\<close>.\<close>

definition first_or_1 :: "nat list \<Rightarrow> nat" where
  "first_or_1 xs = (case xs of [] \<Rightarrow> 1 | x # _ \<Rightarrow> if x = 0 then 1 else x)"

definition last_or_1 :: "nat list \<Rightarrow> nat" where
  "last_or_1 xs = (if xs = [] then 1 else if last xs = 0 then 1 else last xs)"

text \<open>
  The inner loop that gathers the overlap, over \<^verbatim>\<open>currentLines\<close> from its last entry
  down. An entry \<open>n\<close> of \<^verbatim>\<open>currentLines\<close> is a line number counted from 1, and the
  loop reads \<^verbatim>\<open>lines[n]\<close>, counted from 0; beyond the last line that is
  \<^verbatim>\<open>undefined\<close>, whose \<^verbatim>\<open>indexOf\<close> is -1.
\<close>

fun overlap_loop :: "string list \<Rightarrow> nat \<Rightarrow> nat list \<Rightarrow> nat list \<Rightarrow> string \<Rightarrow> nat list \<times> string" where
  "overlap_loop lines overlap [] overlapLines overlapText = (overlapLines, overlapText)"
| "overlap_loop lines overlap (n # rest) overlapLines overlapText =
     (let idx = (if n < length lines then indexOf lines (lines ! n) else - 1) in
      if idx \<ge> 0 \<and> length overlapText + length (lines ! nat idx) < overlap
      then overlap_loop lines overlap rest (n # overlapLines)
             (lines ! nat idx @ [newline] @ overlapText)
      else (overlapLines, overlapText))"

text \<open>The body of the loop over the lines; the state is \<^verbatim>\<open>chunks\<close>,
  \<^verbatim>\<open>currentChunk\<close> and \<^verbatim>\<open>currentLines\<close>.\<close>

definition chunk_step :: "string list \<Rightarrow> nat \<Rightarrow> nat \<Rightarrow> chunk list \<times> string \<times> nat list \<Rightarrow> string
                            \<Rightarrow> chunk list \<times> string \<times> nat list" where
  "chunk_step lines chunkSize overlap st line =
     (case st of (chunks, currentChunk, currentLines) \<Rightarrow>
        let lineLength = length line + 1;
            st1 = (if length currentChunk + lineLength > chunkSize \<and> length currentChunk > 0
                   then (case overlap_loop lines overlap (rev currentLines) [] [] of
                           (overlapLines, overlapText) \<Rightarrow>
                             (chunks @ [\<lparr> chunk_body = trim currentChunk,
                                          lineFrom = first_or_1 currentLines,
                                          lineTo = last_or_1 currentLines \<rparr>],
                              overlapText, overlapLines))
                   else (chunks, currentChunk, currentLines))
        in (case st1 of (chunks1, currentChunk1, currentLines1) \<Rightarrow>
              (chunks1, currentChunk1 @ line @ [newline],
               currentLines1 @ [nat (indexOf lines line + 1)])))"

text \<open>\<^verbatim>\<open>chunkText(text, chunkSize = 1000, overlap = 200)\<close> of \<^verbatim>\<open>IntelligentSync\<close>.\<close>

definition chunkText :: "string \<Rightarrow> nat \<Rightarrow> nat \<Rightarrow> chunk list" where
  "chunkText text chunkSize overlap =
     (let lines = split_lines text in
      case foldl (chunk_step lines chunkSize overlap) ([], [], []) lines of
        (chunks, currentChunk, currentLines) \<Rightarrow>
          if trim currentChunk \<noteq> []
          then chunks @ [\<lparr> chunk_body = trim currentChunk,
                            lineFrom = first_or_1 currentLines,
                            lineTo = last_or_1 currentLines \<rparr>]
          else chunks)"




section \<open>Chunking by words\<close>








section \<open>Collaborators and the index\<close>

text \<open>
  The collaborators of a run. Each call that can throw returns the error it throws as
  a value. \<open>uuidv4 n\<close> is the value of the \<open>n\<close>-th call of \<^verbatim>\<open>uuidv4()\<close>.
  \<open>query_error\<close> is asked with \<open>None\<close> for the unfiltered query of the loader and with
  \<open>Some fid\<close> for the query of \<^verbatim>\<open>deleteFileVectors\<close> filtered by \<^verbatim>\<open>File.id\<close>.
\<close>

record env =
  scanGoogleDrive :: "error + drive_file list"
  extractGoogleDoc :: "string \<Rightarrow> error + string"
  extractGoogleSlides :: "string \<Rightarrow> error + string"
  extractGoogleSheets :: "string \<Rightarrow> error + string"
  extractPDF :: "string \<Rightarrow> error + string"
  createEmbedding :: "string \<Rightarrow> error + embedding"
  uuidv4 :: "nat \<Rightarrow> string"
  upsert_error :: "vector list \<Rightarrow> error option"
  query_error :: "string option \<Rightarrow> error option"
  deleteMany_error :: "string list \<Rightarrow> error option"

text \<open>What a run changes: the records of the index, in the order a query returns
  them, and the number of identifiers drawn so far.\<close>

record world =
  index :: "vector list"
  uuid_count :: nat

definition topK :: nat where
  "topK = 10000"

text \<open>\<^verbatim>\<open>index.query({vector: zeros, topK: 10000, includeMetadata: true, filter})\<close>: at most
  \<open>topK\<close> of the records that pass the filter \<^verbatim>\<open>{'File.id': {$eq: fileId}}\<close>.\<close>

definition index_query :: "vector list \<Rightarrow> string option \<Rightarrow> vector list" where
  "index_query idx flt =
     take topK (case flt of
                  None \<Rightarrow> idx
                | Some fileId \<Rightarrow> filter (\<lambda>v. File_id (vector_metadata v) = Some fileId) idx)"

text \<open>\<^verbatim>\<open>index.upsert(batch)\<close>: a record replaces the record of the same id, or is new.\<close>

definition upsert1 :: "vector list \<Rightarrow> vector \<Rightarrow> vector list" where
  "upsert1 idx v =
     (if vector_id v \<in> vector_id ` set idx
      then map (\<lambda>w. if vector_id w = vector_id v then v else w) idx
      else idx @ [v])"

definition index_upsert :: "vector list \<Rightarrow> vector list \<Rightarrow> vector list" where
  "index_upsert idx batch = foldl upsert1 idx batch"

text \<open>\<^verbatim>\<open>index.deleteMany(ids)\<close>\<close>

definition index_deleteMany :: "vector list \<Rightarrow> string list \<Rightarrow> vector list" where
  "index_deleteMany idx ids = filter (\<lambda>v. vector_id v \<notin> set ids) idx"

section \<open>Indexing Driver\<close>

definition digit_char :: "nat \<Rightarrow> char" where
  "digit_char d = ''0123456789'' ! d"

text \<open>A number inside a template literal: its decimal digits.\<close>

function show_nat :: "nat \<Rightarrow> string" where
  "show_nat n = (if n < 10 then [digit_char n] else show_nat (n div 10) @ [digit_char (n mod 10)])"
  by pat_completeness auto
termination
  by (relation "measure id") auto

declare show_nat.simps [simp del]


text \<open>
  The record \<^verbatim>\<open>createVectors\<close> builds for chunk \<open>i\<close>. \<open>syncDate\<close> is what goes under
  \<^verbatim>\<open>File.lastSyncDate\<close>: the date of the run in \<^verbatim>\<open>IntelligentSync\<close>, nothing in
  \<^verbatim>\<open>PineconeCatalogSyncer\<close>, whose \<^verbatim>\<open>createVectors\<close> is the same but for that key.
\<close>

definition make_vector :: "drive_file \<Rightarrow> int option \<Rightarrow> nat \<Rightarrow> chunk \<Rightarrow> embedding \<Rightarrow> string \<Rightarrow> vector" where
  "make_vector file syncDate i c embedding uuid =
     \<lparr> vector_id = file_id file @ ''_chunk_'' @ show_nat i @ ''_'' @ uuid,
       vector_values = embedding,
       vector_metadata =
         \<lparr> File_id = Some (file_id file),
           File_name = Some (file_name file),
           File_webviewlink = (if truthy (webViewLink file) then webViewLink file else None),
           File_createdDate = map_option date_of (createdTime file),
           File_modifiedDate = Some (date_of (modifiedTime file)),
           File_lastSyncDate = syncDate,
           File_version = None,
           File_md5 = None,
           File_size = None,
           chunk_text = chunk_body c,
           blobType = mimeType file,
           loc_lines_from = lineFrom c,
           loc_lines_to = lineTo c \<rparr> \<rparr>"

text \<open>The loop of \<^verbatim>\<open>createVectors\<close> from chunk \<open>i\<close> on: the embedding is requested
  first, then the identifier is drawn. The second component is the number of
  identifiers drawn when the loop ends or throws.\<close>

fun createVectors_from :: "env \<Rightarrow> drive_file \<Rightarrow> int option \<Rightarrow> nat \<Rightarrow> chunk list \<Rightarrow> nat
                             \<Rightarrow> (error + vector list) \<times> nat" where
  "createVectors_from e file syncDate i [] n = (Inr [], n)"
| "createVectors_from e file syncDate i (c # cs) n =
     (case createEmbedding e (chunk_body c) of
        Inl err \<Rightarrow> (Inl err, n)
      | Inr embedding \<Rightarrow>
          (case createVectors_from e file syncDate (i + 1) cs (n + 1) of
             (Inl err, n') \<Rightarrow> (Inl err, n')
           | (Inr vs, n') \<Rightarrow> (Inr (make_vector file syncDate i c embedding (uuidv4 e n) # vs), n')))"

definition createVectors :: "env \<Rightarrow> drive_file \<Rightarrow> int option \<Rightarrow> chunk list \<Rightarrow> nat
                               \<Rightarrow> (error + vector list) \<times> nat" where
  "createVectors e file syncDate chunks n = createVectors_from e file syncDate 0 chunks n"

text \<open>\<^verbatim>\<open>uploadToPinecone\<close>: batches of 200, one after the other; the batches written
  before a failing one stay written.\<close>

function uploadToPinecone :: "env \<Rightarrow> vector list \<Rightarrow> vector list \<Rightarrow> error option \<times> vector list" where
  "uploadToPinecone e idx vectors =
     (if vectors = [] then (None, idx)
      else (case upsert_error e (take 200 vectors) of
              Some err \<Rightarrow> (Some err, idx)
            | None \<Rightarrow> uploadToPinecone e (index_upsert idx (take 200 vectors)) (drop 200 vectors)))"
  by pat_completeness auto
termination
  by (relation "measure (\<lambda>(e, idx, vectors). length vectors)") auto

declare uploadToPinecone.simps [simp del]

text \<open>\<^verbatim>\<open>deleteFileVectors(fileId)\<close>: the number of records deleted, or the error of the
  query or of the deletion.\<close>

definition deleteFileVectors :: "env \<Rightarrow> world \<Rightarrow> string \<Rightarrow> (error + nat) \<times> world" where
  "deleteFileVectors e w fileId =
     (case query_error e (Some fileId) of
        Some err \<Rightarrow> (Inl err, w)
      | None \<Rightarrow>
          (let matches = index_query (index w) (Some fileId) in
           if length matches = 0 then (Inr 0, w)
           else (let vectorIds = map vector_id matches in
                 case deleteMany_error e vectorIds of
                   Some err \<Rightarrow> (Inl err, w)
                 | None \<Rightarrow>
                     (Inr (length vectorIds),
                      w\<lparr>index := index_deleteMany (index w) vectorIds\<rparr>))))"

text \<open>The object \<^verbatim>\<open>indexFile\<close> returns.\<close>

datatype index_result = Success nat nat | Failure string

definition success :: "index_result \<Rightarrow> bool" where
  "success r = (case r of Success _ _ \<Rightarrow> True | Failure _ \<Rightarrow> False)"

definition message :: "error \<Rightarrow> string" where
  "message err = (case err of Thrown m \<Rightarrow> m)"

text \<open>The dispatch on the format at the head of \<^verbatim>\<open>indexFile\<close>.\<close>

definition extract_text :: "env \<Rightarrow> drive_file \<Rightarrow> error + string" where
  "extract_text e file =
     (if mimeType file = ''application/vnd.google-apps.document''
        then extractGoogleDoc e (file_id file)
      else if mimeType file = ''application/vnd.google-apps.presentation''
        then extractGoogleSlides e (file_id file)
      else if mimeType file = ''application/vnd.google-apps.spreadsheet''
        then extractGoogleSheets e (file_id file)
      else if mimeType file = ''application/pdf''
        then extractPDF e (file_id file)
      else Inl (Thrown (''Unsupported file type: '' @ mimeType file)))"

text \<open>\<^verbatim>\<open>indexFile(file)\<close>: everything from the extraction to the upload is inside one
  \<^verbatim>\<open>try\<close>, whose \<^verbatim>\<open>catch\<close> returns the failure.\<close>

definition indexFile :: "env \<Rightarrow> int \<Rightarrow> world \<Rightarrow> drive_file \<Rightarrow> index_result \<times> world" where
  "indexFile e today w file =
     (case extract_text e file of
        Inl err \<Rightarrow> (Failure (message err), w)
      | Inr text \<Rightarrow>
          if text = [] \<or> length (trim text) < 50 then (Failure ''Text too short'', w)
          else (let chunks = chunkText text 1000 200 in
                case createVectors e file (Some today) chunks (uuid_count w) of
                  (Inl err, n) \<Rightarrow> (Failure (message err), w\<lparr>uuid_count := n\<rparr>)
                | (Inr vectors, n) \<Rightarrow>
                    (case uploadToPinecone e (index w) vectors of
                       (Some err, idx) \<Rightarrow>
                         (Failure (message err), \<lparr> index = idx, uuid_count = n \<rparr>)
                     | (None, idx) \<Rightarrow>
                         (Success (length chunks) (length vectors),
                          \<lparr> index = idx, uuid_count = n \<rparr>))))"

section \<open>The run\<close>

record results =
  newIndexed :: nat
  newFailed :: nat
  modifiedReIndexed :: nat
  modifiedFailed :: nat

text \<open>What a run leaves behind besides its return value: the index, and for every
  call of \<^verbatim>\<open>indexFile\<close> the file and the result, as the console shows them.\<close>

record trace =
  final_world :: world
  item_log :: "(drive_file \<times> index_result) list"

text \<open>Phase 2: the loop over \<^verbatim>\<open>newFiles\<close>.\<close>

fun index_new :: "env \<Rightarrow> int \<Rightarrow> drive_file list \<Rightarrow> results \<times> trace \<Rightarrow> results \<times> trace" where
  "index_new e today [] acc = acc"
| "index_new e today (file # files) (res, t) =
     (case indexFile e today (final_world t) file of
        (result, w') \<Rightarrow>
          index_new e today files
            (if success result then res\<lparr>newIndexed := newIndexed res + 1\<rparr>
             else res\<lparr>newFailed := newFailed res + 1\<rparr>,
             \<lparr> final_world = w', item_log = item_log t @ [(file, result)] \<rparr>))"

text \<open>Phase 3: the loop over \<^verbatim>\<open>modifiedFiles\<close>. \<^verbatim>\<open>deleteFileVectors\<close> is called
  outside any \<^verbatim>\<open>try\<close>: what it throws ends the run.\<close>

fun reindex_modified :: "env \<Rightarrow> int \<Rightarrow> (drive_file \<times> verdict) list \<Rightarrow> results \<times> trace
                           \<Rightarrow> (error + results) \<times> trace" where
  "reindex_modified e today [] (res, t) = (Inr res, t)"
| "reindex_modified e today ((file, pineconeData) # rest) (res, t) =
     (case deleteFileVectors e (final_world t) (file_id file) of
        (Inl err, w') \<Rightarrow> (Inl err, t\<lparr>final_world := w'\<rparr>)
      | (Inr deleted, w') \<Rightarrow>
          (case indexFile e today w' file of
             (result, w'') \<Rightarrow>
               reindex_modified e today rest
                 (if success result then res\<lparr>modifiedReIndexed := modifiedReIndexed res + 1\<rparr>
                  else res\<lparr>modifiedFailed := modifiedFailed res + 1\<rparr>,
                  \<lparr> final_world = w'', item_log = item_log t @ [(file, result)] \<rparr>)))"

text \<open>\<^verbatim>\<open>loadPineconeState\<close> on the index as it stands.\<close>

definition loadPineconeState :: "env \<Rightarrow> world \<Rightarrow> error + pinecone_state" where
  "loadPineconeState e w =
     (case query_error e None of
        Some err \<Rightarrow> Inl err
      | None \<Rightarrow> Inr (load_matches (index_query (index w) None)))"

definition exit_code_of :: "results \<Rightarrow> nat" where
  "exit_code_of res = (if newFailed res + modifiedFailed res > 0 then 1 else 0)"

text \<open>
  \<^verbatim>\<open>run()\<close> at time \<open>now\<close>: its exit code, or the error that ends it. The clock does not
  advance during the run: the cutoff uses \<open>now\<close> and the vectors the date of \<open>now\<close>.
\<close>

definition run :: "env \<Rightarrow> int \<Rightarrow> world \<Rightarrow> (error + nat) \<times> trace" where
  "run e now w =
     (case scanGoogleDrive e of
        Inl err \<Rightarrow> (Inl err, \<lparr> final_world = w, item_log = [] \<rparr>)
      | Inr allFiles \<Rightarrow>
          (case loadPineconeState e w of
             Inl err \<Rightarrow> (Inl err, \<lparr> final_world = w, item_log = [] \<rparr>)
           | Inr pineconeState \<Rightarrow>
               (let filtered = filterFiles allFiles;
                    deduplicated = detectDuplicates filtered
                in case classifyChanges now deduplicated pineconeState of
                     Inl err \<Rightarrow> (Inl err, \<lparr> final_world = w, item_log = [] \<rparr>)
                   | Inr c \<Rightarrow>
                       (case reindex_modified e (date_of now) (modifiedFiles c)
                               (index_new e (date_of now) (newFiles c)
                                  (\<lparr> newIndexed = 0, newFailed = 0,
                                     modifiedReIndexed = 0, modifiedFailed = 0 \<rparr>,
                                   \<lparr> final_world = w, item_log = [] \<rparr>)) of
                          (Inl err, t) \<Rightarrow> (Inl err, t)
                        | (Inr res, t) \<Rightarrow> (Inr (exit_code_of res), t)))))"

text \<open>The exit code of the process: the value \<^verbatim>\<open>run()\<close> resolves to, or 1 when it
  rejects.\<close>

definition process_exit_code :: "error + nat \<Rightarrow> nat" where
  "process_exit_code r = (case r of Inl err \<Rightarrow> 1 | Inr code \<Rightarrow> code)"

section \<open>Identifiers during a run\<close>



section \<open>The catalog syncer\<close>

text \<open>
  \<^verbatim>\<open>PineconeCatalogSyncer\<close>, the script that also handles deleted files. Its steps 7 to
  9 (rebuilding and exporting the catalog, appending to the sync log) run other
  programs and write files; they do not touch the index and are left out.
\<close>

record catalog_file =
  cf_name :: "string option"
  cf_modifiedDate :: "int option"
  cf_vectorIds :: "string list"

text \<open>One iteration of the loop of \<^verbatim>\<open>getPineconeFiles\<close>: a match without
  \<^verbatim>\<open>File.id\<close> is skipped.\<close>

definition catalog_match :: "catalog_file js_map \<Rightarrow> vector \<Rightarrow> catalog_file js_map" where
  "catalog_match filesMap match =
     (let fileId = File_id (vector_metadata match) in
      if \<not> truthy fileId then filesMap
      else (let filesMap1 =
                  (if \<not> map_has filesMap (the fileId)
                   then map_set filesMap (the fileId)
                          \<lparr> cf_name = File_name (vector_metadata match),
                            cf_modifiedDate = File_modifiedDate (vector_metadata match),
                            cf_vectorIds = [] \<rparr>
                   else filesMap);
                entry = the (map_get filesMap1 (the fileId))
            in map_set filesMap1 (the fileId)
                 (entry\<lparr>cf_vectorIds := cf_vectorIds entry @ [vector_id match]\<rparr>)))"

definition getPineconeFiles :: "env \<Rightarrow> world \<Rightarrow> error + catalog_file js_map" where
  "getPineconeFiles e w =
     (case query_error e None of
        Some err \<Rightarrow> Inl err
      | None \<Rightarrow> Inr (foldl catalog_match [] (index_query (index w) None)))"

definition supportedTypes :: "string list" where
  "supportedTypes =
     [''application/vnd.google-apps.document'',
      ''application/vnd.google-apps.presentation'',
      ''application/vnd.google-apps.spreadsheet'',
      ''application/pdf'']"

text \<open>\<^verbatim>\<open>getDriveFiles\<close>: the recursive listing, then the filter on the format.\<close>

definition getDriveFiles :: "env \<Rightarrow> error + drive_file list" where
  "getDriveFiles e =
     (case scanGoogleDrive e of
        Inl err \<Rightarrow> Inl err
      | Inr allFiles \<Rightarrow> Inr (filter (\<lambda>f. mimeType f \<in> set supportedTypes) allFiles))"

record modified_file =
  mf_file :: drive_file
  oldVectorIds :: "string list"

record deleted_file =
  df_fileId :: string
  df_name :: "string option"
  df_vectorIds :: "string list"

record stats =
  st_newFiles :: "drive_file list"
  st_modifiedFiles :: "modified_file list"
  st_deletedFiles :: "deleted_file list"
  indexed :: nat
  reindexed :: nat
  deleted :: nat
  errors :: "(string \<times> string) list"

definition empty_stats :: stats where
  "empty_stats =
     \<lparr> st_newFiles = [], st_modifiedFiles = [], st_deletedFiles = [],
       indexed = 0, reindexed = 0, deleted = 0, errors = [] \<rparr>"

text \<open>
  \<^verbatim>\<open>compareFiles\<close>, first loop. \<^verbatim>\<open>new Date(pineconeFile.modifiedDate)\<close> of a date is
  the start of that day, and of \<^verbatim>\<open>undefined\<close> an invalid date, greater than which
  nothing is.
\<close>

definition compare_drive_file :: "catalog_file js_map \<Rightarrow> stats \<Rightarrow> drive_file \<Rightarrow> stats" where
  "compare_drive_file filesMap st driveFile =
     (case map_get filesMap (file_id driveFile) of
        None \<Rightarrow> st\<lparr>st_newFiles := st_newFiles st @ [driveFile]\<rparr>
      | Some pineconeFile \<Rightarrow>
          if (case cf_modifiedDate pineconeFile of
                None \<Rightarrow> False
              | Some d \<Rightarrow> modifiedTime driveFile > start_of_day d)
          then st\<lparr>st_modifiedFiles :=
                     st_modifiedFiles st @
                     [\<lparr> mf_file = driveFile, oldVectorIds = cf_vectorIds pineconeFile \<rparr>]\<rparr>
          else st)"

text \<open>\<^verbatim>\<open>compareFiles\<close>, second loop: the documents of the index whose id is the id
  of no Drive file.\<close>

definition compare_pinecone_file :: "drive_file list \<Rightarrow> stats \<Rightarrow> string \<times> catalog_file \<Rightarrow> stats" where
  "compare_pinecone_file driveFiles st entry =
     (case entry of (fileId, pineconeFile) \<Rightarrow>
        if fileId \<notin> set (map file_id driveFiles)
        then st\<lparr>st_deletedFiles :=
                   st_deletedFiles st @
                   [\<lparr> df_fileId = fileId, df_name = cf_name pineconeFile,
                      df_vectorIds = cf_vectorIds pineconeFile \<rparr>]\<rparr>
        else st)"

definition compareFiles :: "drive_file list \<Rightarrow> catalog_file js_map \<Rightarrow> stats \<Rightarrow> stats" where
  "compareFiles driveFiles filesMap st =
     foldl (compare_pinecone_file driveFiles)
       (foldl (compare_drive_file filesMap) st driveFiles) filesMap"

text \<open>
  \<^verbatim>\<open>indexNewFiles\<close>. The constructor sets neither \<^verbatim>\<open>this.driveIndexer\<close> nor
  \<^verbatim>\<open>this.chunker\<close>, so outside a dry run the first statement of the \<^verbatim>\<open>try\<close> throws
  a \<^verbatim>\<open>TypeError\<close> for every file, which the \<^verbatim>\<open>catch\<close> records; the index is not
  touched.
\<close>

definition indexNewFiles :: "bool \<Rightarrow> stats \<Rightarrow> stats" where
  "indexNewFiles dryRun st =
     (if dryRun then st
      else st\<lparr>errors := errors st @
                 map (\<lambda>f. (file_name f,
                            ''Cannot read properties of undefined (reading 'downloadFile')''))
                     (st_newFiles st)\<rparr>)"

text \<open>The body of the \<^verbatim>\<open>try\<close> of \<^verbatim>\<open>reindexModifiedFiles\<close> for one file: the error
  it ends with, if any, and the world it leaves.\<close>

definition reindex_one :: "env \<Rightarrow> world \<Rightarrow> modified_file \<Rightarrow> string option \<times> world" where
  "reindex_one e w m =
     (case deleteMany_error e (oldVectorIds m) of
        Some err \<Rightarrow> (Some (message err), w)
      | None \<Rightarrow>
          (let w1 = w\<lparr>index := index_deleteMany (index w) (oldVectorIds m)\<rparr> in
           case extract_text e (mf_file m) of
             Inl err \<Rightarrow> (Some (message err), w1)
           | Inr text \<Rightarrow>
               if text = [] \<or> length (trim text) < 50
               then (Some ''Content too short after update'', w1)
               else (case createVectors e (mf_file m) None (chunkText text 1000 200)
                            (uuid_count w1) of
                       (Inl err, n) \<Rightarrow> (Some (message err), w1\<lparr>uuid_count := n\<rparr>)
                     | (Inr vectors, n) \<Rightarrow>
                         (case uploadToPinecone e (index w1) vectors of
                            (Some err, idx) \<Rightarrow>
                              (Some (message err), \<lparr> index = idx, uuid_count = n \<rparr>)
                          | (None, idx) \<Rightarrow> (None, \<lparr> index = idx, uuid_count = n \<rparr>)))))"

fun reindexModifiedFiles :: "env \<Rightarrow> bool \<Rightarrow> modified_file list \<Rightarrow> stats \<times> world \<Rightarrow> stats \<times> world" where
  "reindexModifiedFiles e dryRun [] acc = acc"
| "reindexModifiedFiles e dryRun (m # ms) (st, w) =
     (if dryRun then reindexModifiedFiles e dryRun ms (st, w)
      else (case reindex_one e w m of
              (Some err, w') \<Rightarrow>
                reindexModifiedFiles e dryRun ms
                  (st\<lparr>errors := errors st @ [(file_name (mf_file m), err)]\<rparr>, w')
            | (None, w') \<Rightarrow>
                reindexModifiedFiles e dryRun ms (st\<lparr>reindexed := reindexed st + 1\<rparr>, w')))"

fun deleteRemovedFiles :: "env \<Rightarrow> bool \<Rightarrow> deleted_file list \<Rightarrow> stats \<times> world \<Rightarrow> stats \<times> world" where
  "deleteRemovedFiles e dryRun [] acc = acc"
| "deleteRemovedFiles e dryRun (d # ds) (st, w) =
     (if dryRun then deleteRemovedFiles e dryRun ds (st, w)
      else (case deleteMany_error e (df_vectorIds d) of
              Some err \<Rightarrow>
                deleteRemovedFiles e dryRun ds
                  (st\<lparr>errors := errors st @ [((case df_name d of None \<Rightarrow> [] | Some n \<Rightarrow> n), message err)]\<rparr>, w)
            | None \<Rightarrow>
                deleteRemovedFiles e dryRun ds
                  (st\<lparr>deleted := deleted st + 1\<rparr>,
                   w\<lparr>index := index_deleteMany (index w) (df_vectorIds d)\<rparr>)))"

text \<open>\<^verbatim>\<open>sync()\<close>, steps 1 to 6.\<close>

definition sync :: "env \<Rightarrow> bool \<Rightarrow> world \<Rightarrow> (error + stats) \<times> world" where
  "sync e dryRun w =
     (case getDriveFiles e of
        Inl err \<Rightarrow> (Inl err, w)
      | Inr driveFiles \<Rightarrow>
          (case getPineconeFiles e w of
             Inl err \<Rightarrow> (Inl err, w)
           | Inr filesMap \<Rightarrow>
               (let st1 = compareFiles driveFiles filesMap empty_stats;
                    st2 = indexNewFiles dryRun st1
                in case deleteRemovedFiles e dryRun (st_deletedFiles st2)
                          (reindexModifiedFiles e dryRun (st_modifiedFiles st2) (st2, w)) of
                     (st3, w') \<Rightarrow> (Inr st3, w'))))"

section \<open>Concrete inputs\<close>

text \<open>Records with every optional field absent, from which the concrete inputs of the
  closed theorems below are built by record update.\<close>

definition blank_metadata :: metadata where
  "blank_metadata =
     \<lparr> File_id = None, File_name = None, File_webviewlink = None, File_createdDate = None,
       File_modifiedDate = None, File_lastSyncDate = None, File_version = None,
       File_md5 = None, File_size = None, chunk_text = [], blobType = [],
       loc_lines_from = 1, loc_lines_to = 1 \<rparr>"

definition blank_vector :: vector where
  "blank_vector = \<lparr> vector_id = [], vector_values = [], vector_metadata = blank_metadata \<rparr>"

definition blank_file :: drive_file where
  "blank_file =
     \<lparr> file_id = [], file_name = [], mimeType = ''application/pdf'', modifiedTime = 0,
       createdTime = None, webViewLink = None, file_size = None, file_version = None,
       md5Checksum = None, file_path = ''Root'', folderId = ''root'' \<rparr>"

text \<open>A vector with the given id whose metadata carries the given document id, name
  and sync date.\<close>

definition mk_vector :: "string \<Rightarrow> string option \<Rightarrow> string option \<Rightarrow> int option \<Rightarrow> vector" where
  "mk_vector vid fid fname synced =
     blank_vector\<lparr> vector_id := vid,
                   vector_metadata :=
                     blank_metadata\<lparr> File_id := fid, File_name := fname,
                                      File_lastSyncDate := synced \<rparr> \<rparr>"

text \<open>A Drive file with the given id, name, format and modification time.\<close>

definition mk_file :: "string \<Rightarrow> string \<Rightarrow> string \<Rightarrow> int \<Rightarrow> drive_file" where
  "mk_file fid fname mime mt =
     blank_file\<lparr> file_id := fid, file_name := fname, mimeType := mime, modifiedTime := mt \<rparr>"



text \<open>Two indexed documents whose names both normalise to \<^verbatim>\<open>report\<close>, and a Drive
  file named \<^verbatim>\<open>Report\<close> whose id is the id of neither.\<close>

definition c8_index :: "vector list" where
  "c8_index =
     [mk_vector ''a'' (Some ''d1'') (Some ''Report v1'') None,
      mk_vector ''b'' (Some ''d2'') (Some ''Report v2'') None]"

definition c8_file :: drive_file where
  "c8_file = mk_file ''x'' ''Report'' ''application/pdf'' 0"

text \<open>The group of the specification's example: a PDF, a PowerPoint export and the
  native slide deck of one report, the native deck being neither the newest nor the
  first. Then two PDF files of one name and one modification time.\<close>

definition report_pdf :: drive_file where
  "report_pdf = mk_file ''id-pdf'' ''Report.pdf'' ''application/pdf'' 1000"

definition report_pptx :: drive_file where
  "report_pptx =
     mk_file ''id-pptx'' ''Report.pptx''
       ''application/vnd.openxmlformats-officedocument.presentationml.presentation'' 3000"

definition report_slides :: drive_file where
  "report_slides = mk_file ''id-slides'' ''Report'' ''application/vnd.google-apps.presentation'' 2000"

definition twin_a :: drive_file where
  "twin_a = mk_file ''a'' ''Report.pdf'' ''application/pdf'' 1000"

definition twin_b :: drive_file where
  "twin_b = mk_file ''b'' ''Report.pdf'' ''application/pdf'' 1000"

text \<open>Two Drive files, both modified on day 20000 at 10:00 UTC, and collaborators that
  all succeed: every extraction returns sixty letters, every embedding is the same
  vector, and the \<open>n\<close>-th identifier (counting from 0) is \<open>n + 1\<close> letters \<^verbatim>\<open>u\<close>.\<close>

definition file_deck :: drive_file where
  "file_deck = mk_file ''f1'' ''Deck'' ''application/vnd.google-apps.presentation'' 1728036000000"

definition file_memo :: drive_file where
  "file_memo = mk_file ''f2'' ''Memo'' ''application/vnd.google-apps.document'' 1728036000000"

definition sixty_x :: string where
  "sixty_x = replicate 60 CHR ''x''"

definition good_env :: "drive_file list \<Rightarrow> env" where
  "good_env files =
     \<lparr> scanGoogleDrive = Inr files,
       extractGoogleDoc = (\<lambda>fid. Inr sixty_x),
       extractGoogleSlides = (\<lambda>fid. Inr sixty_x),
       extractGoogleSheets = (\<lambda>fid. Inr sixty_x),
       extractPDF = (\<lambda>fid. Inr sixty_x),
       createEmbedding = (\<lambda>text. Inr [0]),
       uuidv4 = (\<lambda>n. replicate (Suc n) CHR ''u''),
       upsert_error = (\<lambda>batch. None),
       query_error = (\<lambda>flt. None),
       deleteMany_error = (\<lambda>ids. None) \<rparr>"

text \<open>The vector \<open>indexFile\<close> writes for a file under these collaborators.\<close>

definition sole_vector :: "drive_file \<Rightarrow> int \<Rightarrow> nat \<Rightarrow> vector" where
  "sole_vector file today n =
     make_vector file (Some today) 0 \<lparr> chunk_body = sixty_x, lineFrom = 1, lineTo = 1 \<rparr> [0]
       (replicate (Suc n) CHR ''u'')"

text \<open>The same collaborators with a document extraction that throws, and with an
  index that cannot be queried; an empty index; 11:00 and 12:00 UTC of day 20000.\<close>

definition doc_failing_env :: "drive_file list \<Rightarrow> env" where
  "doc_failing_env files =
     (good_env files)\<lparr> extractGoogleDoc := (\<lambda>fid. Inl (Thrown ''Drive API error'')) \<rparr>"

definition unreachable_index_env :: "drive_file list \<Rightarrow> env" where
  "unreachable_index_env files =
     (good_env files)\<lparr> query_error := (\<lambda>flt. Some (Thrown ''index unavailable'')) \<rparr>"

definition empty_world :: world where
  "empty_world = \<lparr> index = [], uuid_count = 0 \<rparr>"

definition at_11 :: int where
  "at_11 = 1728039600000"

definition at_12 :: int where
  "at_12 = 1728043200000"

text \<open>An index holding one legacy record of the document \<^verbatim>\<open>Deck\<close>, without document
  id; and an index holding one record of a document with id \<^verbatim>\<open>gone\<close>, named
  \<^verbatim>\<open>Old Deck\<close>, that no Drive file matches.\<close>

definition legacy_chunk :: vector where
  "legacy_chunk = mk_vector ''n8n-1'' None (Some ''Deck'') None"

definition legacy_world :: world where
  "legacy_world = \<lparr> index = [legacy_chunk], uuid_count = 0 \<rparr>"

definition orphan_chunk :: vector where
  "orphan_chunk = mk_vector ''x-1'' (Some ''gone'') (Some ''Old Deck'') (Some 19990)"

definition orphan_world :: world where
  "orphan_world = \<lparr> index = [orphan_chunk], uuid_count = 0 \<rparr>"

text \<open>The record that the catalog syncer's loader keeps for the document \<^verbatim>\<open>gone\<close>.\<close>

definition orphan_deleted :: deleted_file where
  "orphan_deleted = \<lparr> df_fileId = ''gone'', df_name = Some ''Old Deck'', df_vectorIds = [''x-1''] \<rparr>"





text \<open>
  A record with the given id of the given Drive file as it was modified and synced on
  day 19990; an index holding one such record for \<^verbatim>\<open>Deck\<close> and one for \<^verbatim>\<open>Memo\<close>; and
  the succeeding collaborators except that \<^verbatim>\<open>deleteMany\<close> throws when it is asked to
  delete the record of \<^verbatim>\<open>Deck\<close>.
\<close>

definition stale_chunk :: "string \<Rightarrow> drive_file \<Rightarrow> vector" where
  "stale_chunk vid f =
     blank_vector\<lparr> vector_id := vid,
                   vector_metadata :=
                     blank_metadata\<lparr> File_id := Some (file_id f), File_name := Some (file_name f),
                                      File_modifiedDate := Some 19990,
                                      File_lastSyncDate := Some 19990 \<rparr> \<rparr>"

definition stale_world :: world where
  "stale_world =
     \<lparr> index = [stale_chunk ''d-1'' file_deck, stale_chunk ''m-1'' file_memo], uuid_count = 0 \<rparr>"

definition delete_failing_env :: "drive_file list \<Rightarrow> env" where
  "delete_failing_env files =
     (good_env files)
       \<lparr> deleteMany_error :=
           (\<lambda>ids. if ids = [''d-1''] then Some (Thrown ''delete failed'') else None) \<rparr>"

section \<open>Maps in insertion order\<close>

lemma map_of_map_set:
  "map_of (map_set m k v) k' = (if k' = k then Some v else map_of m k')"
proof (cases "map_has m k")
  case True
  have "map_of (map (\<lambda>(k', v'). if k' = k then (k', v) else (k', v')) m) k' =
          (if k' = k then (if map_of m k = None then None else Some v) else map_of m k')"
    by (induction m) auto
  then show ?thesis using True by (auto simp: map_set_def map_has_def)
next
  case False
  then show ?thesis
    by (auto simp: map_set_def map_has_def map_add_def split: option.splits)
qed

lemma keys_map_set:
  "map fst (map_set m k v) = (if k \<in> fst ` set m then map fst m else map fst m @ [k])"
proof -
  have "map fst (map (\<lambda>(k', v'). if k' = k then (k', v) else (k', v')) m) = map fst m"
    by (induction m) auto
  then show ?thesis
    by (auto simp: map_set_def map_has_def map_of_eq_None_iff)
qed

section \<open>Fuzzy name matching: the 30-character threshold\<close>





section \<open>Index State Loader: what a record contributes\<close>

lemma latestSyncDate_load_match:
  "latestSyncDate (load_match st m) =
     (case File_lastSyncDate (vector_metadata m) of
        None \<Rightarrow> latestSyncDate st
      | Some d \<Rightarrow> (case latestSyncDate st of None \<Rightarrow> Some d | Some l \<Rightarrow> Some (max l d)))"
  by (auto simp: load_match_def Let_def split: option.splits)

lemma pineconeFiles_load_match:
  "pineconeFiles (load_match st m) =
     (if truthy (File_id (vector_metadata m))
      then count_vector (pineconeFiles st) (the (File_id (vector_metadata m))) m
             (File_id (vector_metadata m)) True
      else pineconeFiles st)"
  by (auto simp: load_match_def Let_def split: option.splits)

lemma pineconeFilesByName_load_match:
  "pineconeFilesByName (load_match st m) =
     (if \<not> truthy (File_id (vector_metadata m)) \<and> truthy (File_name (vector_metadata m))
      then count_vector (pineconeFilesByName st) (the (File_name (vector_metadata m))) m None False
      else pineconeFilesByName st)"
  by (auto simp: load_match_def Let_def split: option.splits)

lemma latestSyncDate_foldl:
  "latestSyncDate (foldl load_match st ms) =
     (let ds = List.map_filter (\<lambda>m. File_lastSyncDate (vector_metadata m)) ms in
      case latestSyncDate st of
        None \<Rightarrow> (if ds = [] then None else Some (Max (set ds)))
      | Some l \<Rightarrow> Some (Max (set (l # ds))))"
proof (induction ms arbitrary: st)
  case Nil
  show ?case by (simp add: List.map_filter_simps split: option.splits)
next
  case (Cons m ms)
  show ?case
    apply (simp add: Cons.IH latestSyncDate_load_match Let_def List.map_filter_simps
                split: option.splits)
    apply (auto simp: max_def Max_insert split: if_splits)
    done
qed


lemma maps_foldl_cong:
  "pineconeFiles st = pineconeFiles st' \<Longrightarrow>
   pineconeFilesByName st = pineconeFilesByName st' \<Longrightarrow>
   pineconeFiles (foldl load_match st ms) = pineconeFiles (foldl load_match st' ms) \<and>
   pineconeFilesByName (foldl load_match st ms) = pineconeFilesByName (foldl load_match st' ms)"
proof (induction ms arbitrary: st st')
  case Nil
  then show ?case by simp
next
  case (Cons m ms)
  show ?case
    unfolding foldl_Cons
    by (rule Cons.IH) (simp_all add: pineconeFiles_load_match pineconeFilesByName_load_match Cons.prems)
qed

section \<open>Records without document id and name\<close>

text \<open>
  Claim C10, as the code has it. A chunk record whose metadata carries neither a
  document id nor a document name enters neither map of the loader, wherever it stands
  among the query's matches; its \<^verbatim>\<open>File.lastSyncDate\<close>, however, is read before the
  id and the name are looked at, and takes part in the latest sync date, from which the
  cutoff is computed.
\<close>

theorem unkeyed_record_loader:
  assumes "\<not> truthy (File_id (vector_metadata r))"
      and "\<not> truthy (File_name (vector_metadata r))"
  shows "pineconeFiles (load_matches (xs @ r # ys)) = pineconeFiles (load_matches (xs @ ys)) \<and>
         pineconeFilesByName (load_matches (xs @ r # ys)) =
           pineconeFilesByName (load_matches (xs @ ys)) \<and>
         latestSyncDate (load_matches (xs @ r # ys)) =
           (case File_lastSyncDate (vector_metadata r) of
              None \<Rightarrow> latestSyncDate (load_matches (xs @ ys))
            | Some d \<Rightarrow>
                (case latestSyncDate (load_matches (xs @ ys)) of
                   None \<Rightarrow> Some d
                 | Some l \<Rightarrow> Some (max l d)))"
proof -
  let ?s = "foldl load_match empty_state xs"
  have same: "pineconeFiles (load_match ?s r) = pineconeFiles ?s"
             "pineconeFilesByName (load_match ?s r) = pineconeFilesByName ?s"
    using assms by (simp_all add: pineconeFiles_load_match pineconeFilesByName_load_match)
  have maps: "pineconeFiles (foldl load_match (load_match ?s r) ys) =
                pineconeFiles (foldl load_match ?s ys) \<and>
              pineconeFilesByName (foldl load_match (load_match ?s r) ys) =
                pineconeFilesByName (foldl load_match ?s ys)"
    by (rule maps_foldl_cong) (simp_all add: same)
  have dates: "latestSyncDate (load_matches (xs @ r # ys)) =
           (case File_lastSyncDate (vector_metadata r) of
              None \<Rightarrow> latestSyncDate (load_matches (xs @ ys))
            | Some d \<Rightarrow>
                (case latestSyncDate (load_matches (xs @ ys)) of
                   None \<Rightarrow> Some d
                 | Some l \<Rightarrow> Some (max l d)))"
    unfolding load_matches_def foldl_append foldl_Cons
    apply (simp add: latestSyncDate_foldl [of "load_match ?s r"] latestSyncDate_foldl [of ?s]
                latestSyncDate_load_match Let_def Max_insert max.assoc max.commute
                max.left_commute split: option.splits)
    done
  show ?thesis
    using maps dates by (simp add: load_matches_def)
qed

theorem unkeyed_record_loader_witness:
  "\<not> truthy (File_id (vector_metadata (mk_vector ''v9'' None None (Some 20000)))) \<and>
   \<not> truthy (File_name (vector_metadata (mk_vector ''v9'' None None (Some 20000)))) \<and>
   pineconeFiles (load_matches [mk_vector ''v9'' None None (Some 20000)]) = [] \<and>
   pineconeFilesByName (load_matches [mk_vector ''v9'' None None (Some 20000)]) = [] \<and>
   latestSyncDate (load_matches [mk_vector ''v9'' None None (Some 20000)]) = Some 20000"
proof -
  let ?r = "mk_vector ''v9'' None None (Some 20000)"
  have h1: "\<not> truthy (File_id (vector_metadata ?r))"
    by (simp add: mk_vector_def blank_vector_def blank_metadata_def truthy_def)
  have h2: "\<not> truthy (File_name (vector_metadata ?r))"
    by (simp add: mk_vector_def blank_vector_def blank_metadata_def truthy_def)
  have d: "File_lastSyncDate (vector_metadata ?r) = Some 20000"
    by (simp add: mk_vector_def blank_vector_def blank_metadata_def)
  have e: "load_matches [] = empty_state"
    by (simp add: load_matches_def)
  show ?thesis
    using unkeyed_record_loader [OF h1 h2, of "[]" "[]"] h1 h2
    by (simp add: d e empty_state_def)
qed

text \<open>
  The claim's clause that such a record does not contribute to the global sync cutoff
  fails: an index holding one such record, synced on day 20000, has that day as its
  latest sync date, and the cutoff is the start of that day instead of the 30-day
  lookback.
\<close>

theorem unkeyed_record_moves_cutoff:
  "pineconeFiles (load_matches [mk_vector ''v1'' None None (Some 20000)]) = [] \<and>
   pineconeFilesByName (load_matches [mk_vector ''v1'' None None (Some 20000)]) = [] \<and>
   cutoffDate 1728000000000 (latestSyncDate (load_matches [mk_vector ''v1'' None None (Some 20000)]))
     = 1728000000000 \<and>
   cutoffDate 1728000000000 (latestSyncDate (load_matches [])) = 1725408000000"
  by (simp add: load_matches_def load_match_def mk_vector_def blank_vector_def
        blank_metadata_def truthy_def empty_state_def cutoffDate_def start_of_day_def
        ms_per_day_def Let_def)

section \<open>Change Classifier: the cutoff\<close>





section \<open>Several documents with a similar name\<close>

lemma find_similar_first:
  assumes "\<forall>q \<in> set before. \<exists>qn. pd_File_name q = Some qn \<and> \<not> isSimilarName n qn"
      and "pd_File_name p = Some pn" and "isSimilarName n pn"
  shows "find_similar n (before @ p # after) = Inr (Some p)"
  using assms by (induction before) auto

text \<open>
  Claim C8 fails on the code: the third lookup is \<^verbatim>\<open>Array.prototype.find\<close>, which
  returns the first document with a similar name and does not look for a second one.
  Two indexed documents named \<^verbatim>\<open>Report v1\<close> and \<^verbatim>\<open>Report v2\<close> are both similar
  to a file named \<^verbatim>\<open>Report\<close> that matches neither by id nor by exact name; the file is
  matched to the first and, being older than the cutoff, classified UNCHANGED, not NEW.
\<close>

theorem ambiguous_fuzzy_match_accepted:
  "map_get (pineconeFiles (load_matches c8_index)) (file_id c8_file) = None \<and>
   map_get (pineconeFilesByName (load_matches c8_index)) (file_name c8_file) = None \<and>
   isSimilarName (file_name c8_file) ''Report v1'' \<and>
   isSimilarName (file_name c8_file) ''Report v2'' \<and>
   classify_file 2592000000 (load_matches c8_index) c8_file =
     Inr (UNCHANGED ''Not modified since last sync'')"
proof -
  have s1: "isSimilarName ''Report'' ''Report v1''" by code_simp
  have s2: "isSimilarName ''Report'' ''Report v2''" by code_simp
  have st: "load_matches c8_index =
              \<lparr> pineconeFiles =
                  [(''d1'', new_pinecone_data (c8_index ! 0) (Some ''d1'') True),
                   (''d2'', new_pinecone_data (c8_index ! 1) (Some ''d2'') True)],
                pineconeFilesByName = [], latestSyncDate = None \<rparr>"
    by (simp add: load_matches_def load_match_def empty_state_def c8_index_def mk_vector_def
          blank_vector_def blank_metadata_def truthy_def count_vector_def map_get_def
          map_set_def map_has_def Let_def)
  have f: "file_id c8_file = ''x''" "file_name c8_file = ''Report''" "modifiedTime c8_file = 0"
    by (simp_all add: c8_file_def mk_file_def blank_file_def)
  have n1: "pd_File_name (new_pinecone_data (c8_index ! 0) (Some ''d1'') True) = Some ''Report v1''"
    by (simp add: new_pinecone_data_def c8_index_def mk_vector_def blank_vector_def
          blank_metadata_def)
  show ?thesis
    by (simp add: st f s1 s2 n1 classify_file_def find_pineconeData_def map_get_def
          allPineconeFiles_def map_values_def cutoffDate_def)
qed

text \<open>
  Claim C8, as the code has it. For a file with no id match and no exact-name match,
  the classifier accepts the first document, in the loader's order (the documents with
  an id as first seen, then the legacy documents), whose name is similar to the file's
  name, however many further documents with a similar name follow it; the file is then
  not NEW.
\<close>

theorem first_fuzzy_match_accepted:
  assumes "map_get (pineconeFiles st) (file_id file) = None"
      and "map_get (pineconeFilesByName st) (file_name file) = None"
      and "allPineconeFiles st = before @ p # after"
      and "\<forall>q \<in> set before. \<exists>qn. pd_File_name q = Some qn \<and> \<not> isSimilarName (file_name file) qn"
      and "pd_File_name p = Some pn"
      and "isSimilarName (file_name file) pn"
  shows "find_pineconeData st file = Inr (Some p) \<and> classify_file now st file \<noteq> Inr NEW"
proof -
  have "find_pineconeData st file = Inr (Some p)"
    using assms(1,2) find_similar_first [OF assms(4,5,6), of after]
    by (simp add: find_pineconeData_def assms(3))
  then show ?thesis
    by (simp add: classify_file_def Let_def)
qed

theorem first_fuzzy_match_accepted_witness:
  "allPineconeFiles (load_matches c8_index) =
     [] @ new_pinecone_data (c8_index ! 0) (Some ''d1'') True #
          [new_pinecone_data (c8_index ! 1) (Some ''d2'') True] \<and>
   isSimilarName (file_name c8_file) ''Report v1'' \<and>
   find_pineconeData (load_matches c8_index) c8_file =
     Inr (Some (new_pinecone_data (c8_index ! 0) (Some ''d1'') True)) \<and>
   classify_file 5000000000 (load_matches c8_index) c8_file \<noteq> Inr NEW"
proof -
  have s1: "isSimilarName (file_name c8_file) ''Report v1''"
    unfolding c8_file_def mk_file_def blank_file_def by simp code_simp
  have st: "load_matches c8_index =
              \<lparr> pineconeFiles =
                  [(''d1'', new_pinecone_data (c8_index ! 0) (Some ''d1'') True),
                   (''d2'', new_pinecone_data (c8_index ! 1) (Some ''d2'') True)],
                pineconeFilesByName = [], latestSyncDate = None \<rparr>"
    by (simp add: load_matches_def load_match_def empty_state_def c8_index_def mk_vector_def
          blank_vector_def blank_metadata_def truthy_def count_vector_def map_get_def
          map_set_def map_has_def Let_def)
  have f: "file_id c8_file = ''x''" "file_name c8_file = ''Report''"
    by (simp_all add: c8_file_def mk_file_def blank_file_def)
  have h1: "map_get (pineconeFiles (load_matches c8_index)) (file_id c8_file) = None"
    by (simp add: st f map_get_def)
  have h2: "map_get (pineconeFilesByName (load_matches c8_index)) (file_name c8_file) = None"
    by (simp add: st f map_get_def)
  have h3: "allPineconeFiles (load_matches c8_index) =
              [] @ new_pinecone_data (c8_index ! 0) (Some ''d1'') True #
                   [new_pinecone_data (c8_index ! 1) (Some ''d2'') True]"
    by (simp add: st allPineconeFiles_def map_values_def)
  have h4: "\<forall>q \<in> set []. \<exists>qn. pd_File_name q = Some qn \<and> \<not> isSimilarName (file_name c8_file) qn"
    by simp
  have h5: "pd_File_name (new_pinecone_data (c8_index ! 0) (Some ''d1'') True) = Some ''Report v1''"
    by (simp add: new_pinecone_data_def c8_index_def mk_vector_def blank_vector_def
          blank_metadata_def)
  show ?thesis
    using first_fuzzy_match_accepted [OF h1 h2 h3 h4 h5 s1, of 5000000000] h3 s1 by blast
qed

section \<open>Duplicate Resolver: the winner of a group\<close>

lemma compare_files_le_iff:
  "compare_files a b \<le> 0 \<longleftrightarrow>
     priority a < priority b \<or> (priority a = priority b \<and> modifiedTime b \<le> modifiedTime a)"
  by (auto simp: compare_files_def Let_def)

lemma compare_files_less_iff:
  "compare_files a b < 0 \<longleftrightarrow>
     priority a < priority b \<or> (priority a = priority b \<and> modifiedTime b < modifiedTime a)"
  by (auto simp: compare_files_def Let_def)

lemma set_insert_sorted: "set (insert_sorted cmp x ys) = insert x (set ys)"
  by (induction ys) auto

lemma sorted_insert_sorted:
  "sorted_wrt (\<lambda>a b. compare_files a b \<le> 0) ys \<Longrightarrow>
   sorted_wrt (\<lambda>a b. compare_files a b \<le> 0) (insert_sorted compare_files x ys)"
proof (induction ys)
  case Nil
  then show ?case by simp
next
  case (Cons y ys)
  show ?case
  proof (cases "compare_files x y < 0")
    case True
    then have "\<forall>z \<in> set (y # ys). compare_files x z \<le> 0"
      using Cons.prems by (auto simp: compare_files_le_iff compare_files_less_iff)
    then show ?thesis using True Cons.prems by simp
  next
    case False
    then have "compare_files y x \<le> 0"
      by (auto simp: compare_files_le_iff compare_files_less_iff)
    then show ?thesis
      using False Cons by (auto simp: set_insert_sorted)
  qed
qed

lemma js_sort_foldl:
  "sorted_wrt (\<lambda>a b. compare_files a b \<le> 0) acc \<Longrightarrow>
   sorted_wrt (\<lambda>a b. compare_files a b \<le> 0)
     (foldl (\<lambda>acc x. insert_sorted compare_files x acc) acc xs) \<and>
   set (foldl (\<lambda>acc x. insert_sorted compare_files x acc) acc xs) = set acc \<union> set xs"
proof (induction xs arbitrary: acc)
  case Nil
  then show ?case by simp
next
  case (Cons x xs)
  from Cons.IH [OF sorted_insert_sorted [OF Cons.prems, of x]]
  show ?case by (auto simp: set_insert_sorted)
qed

lemma js_sort_sorted:
  "sorted_wrt (\<lambda>a b. compare_files a b \<le> 0) (js_sort compare_files xs) \<and>
   set (js_sort compare_files xs) = set xs"
  using js_sort_foldl [of "[]" xs] by (simp add: js_sort_def)

lemma winner_of_minimal:
  assumes "grp \<noteq> []"
  shows "\<exists>w. winner_of grp = [w] \<and> w \<in> set grp \<and> (\<forall>x \<in> set grp. compare_files w x \<le> 0)"
proof (cases "length grp = 1")
  case True
  then obtain w where "grp = [w]"
    by (cases grp) auto
  then show ?thesis
    by (simp add: winner_of_def compare_files_le_iff)
next
  case False
  from js_sort_sorted [of grp] assms obtain w ws where s: "js_sort compare_files grp = w # ws"
    by (cases "js_sort compare_files grp") auto
  have "w \<in> set grp"
    using js_sort_sorted [of grp] s by auto
  moreover have "\<forall>x \<in> set grp. compare_files w x \<le> 0"
    using js_sort_sorted [of grp] s by (auto simp: compare_files_le_iff)
  ultimately show ?thesis
    using False s by (simp add: winner_of_def)
qed

lemma map_of_add_to_group:
  "map_of (add_to_group groups x) k =
     (if k = group_key x
      then Some ((case map_of groups k of None \<Rightarrow> [] | Some g \<Rightarrow> g) @ [x])
      else map_of groups k)"
  by (auto simp: add_to_group_def Let_def map_of_map_set map_has_def map_get_def)

lemma keys_add_to_group:
  "map fst (add_to_group groups x) =
     (if group_key x \<in> fst ` set groups then map fst groups
      else map fst groups @ [group_key x])"
  by (auto simp: add_to_group_def Let_def keys_map_set map_has_def map_of_eq_None_iff
        simp flip: set_map)

lemma group_files_snoc: "group_files (xs @ [x]) = add_to_group (group_files xs) x"
  by (simp add: group_files_def)

lemma group_files_char:
  "map_of (group_files files) k =
     (if filter (\<lambda>f. group_key f = k) files = [] then None
      else Some (filter (\<lambda>f. group_key f = k) files)) \<and>
   distinct (map fst (group_files files)) \<and>
   set (map fst (group_files files)) = group_key ` set files"
proof (induction files arbitrary: k rule: rev_induct)
  case Nil
  show ?case by (simp add: group_files_def)
next
  case (snoc x xs)
  have keys: "fst ` set (group_files xs) = group_key ` set xs"
    using snoc.IH by simp
  show ?case
    unfolding group_files_snoc
    using snoc.IH
    by (auto simp: map_of_add_to_group keys_add_to_group keys)
qed

lemma group_files_entry:
  "(k, grp) \<in> set (group_files files) \<longleftrightarrow>
     grp = filter (\<lambda>f. group_key f = k) files \<and> grp \<noteq> []"
proof -
  have d: "distinct (map fst (group_files files))"
    using group_files_char by blast
  have "(k, grp) \<in> set (group_files files) \<longleftrightarrow> map_of (group_files files) k = Some grp"
    using d by simp
  then show ?thesis
    using group_files_char [of files k] by auto
qed

lemma winners_keys:
  assumes "\<forall>(k, grp) \<in> set es. grp \<noteq> [] \<and> (\<forall>f \<in> set grp. group_key f = k)"
  shows "map group_key (concat (map (\<lambda>(k, grp). winner_of grp) es)) = map fst es"
  using assms
proof (induction es)
  case Nil
  show ?case by simp
next
  case (Cons e es)
  obtain k grp where e: "e = (k, grp)" by (cases e)
  from Cons.prems e have "grp \<noteq> []" and keys: "\<forall>f \<in> set grp. group_key f = k"
    by auto
  from winner_of_minimal [OF \<open>grp \<noteq> []\<close>] obtain w where "winner_of grp = [w]" "w \<in> set grp"
    by blast
  then show ?case
    using Cons e keys by auto
qed

lemma detectDuplicates_keys:
  "map group_key (detectDuplicates files) = map fst (group_files files)"
  unfolding detectDuplicates_def
  by (rule winners_keys) (auto simp: group_files_entry)

lemma detectDuplicates_mem:
  "w \<in> set (detectDuplicates files) \<longleftrightarrow>
     (\<exists>k. filter (\<lambda>f. group_key f = k) files \<noteq> [] \<and>
          winner_of (filter (\<lambda>f. group_key f = k) files) = [w])"
proof -
  have "w \<in> set (detectDuplicates files) \<longleftrightarrow>
          (\<exists>k grp. (k, grp) \<in> set (group_files files) \<and> w \<in> set (winner_of grp))"
    by (auto simp: detectDuplicates_def)
  also have "\<dots> \<longleftrightarrow> (\<exists>k. filter (\<lambda>f. group_key f = k) files \<noteq> [] \<and>
                          w \<in> set (winner_of (filter (\<lambda>f. group_key f = k) files)))"
    by (auto simp: group_files_entry)
  also have "\<dots> \<longleftrightarrow> (\<exists>k. filter (\<lambda>f. group_key f = k) files \<noteq> [] \<and>
                          winner_of (filter (\<lambda>f. group_key f = k) files) = [w])"
    using winner_of_minimal by (metis list.set_intros(1) set_ConsD empty_iff empty_set)
  finally show ?thesis .
qed

lemma insert_sorted_hd:
  "insert_sorted cmp x ys \<noteq> [] \<and>
   hd (insert_sorted cmp x ys) = (if ys = [] then x else if cmp x (hd ys) < 0 then x else hd ys)"
  by (cases ys) simp_all

lemma js_sort_hd:
  "acc \<noteq> [] \<Longrightarrow>
   foldl (\<lambda>acc x. insert_sorted cmp x acc) acc xs \<noteq> [] \<and>
   hd (foldl (\<lambda>acc x. insert_sorted cmp x acc) acc xs) =
     foldl (\<lambda>h x. if cmp x h < 0 then x else h) (hd acc) xs"
proof (induction xs arbitrary: acc)
  case Nil
  then show ?case by simp
next
  case (Cons x xs)
  from Cons.IH [of "insert_sorted cmp x acc"] Cons.prems show ?case
    by (simp add: insert_sorted_hd)
qed

lemma first_best:
  assumes "\<forall>y \<in> set pre. compare_files h y < 0" and "\<forall>y \<in> set mid. compare_files h y \<le> 0"
  shows "\<exists>before after.
           pre @ h # mid @ xs =
             before @ foldl (\<lambda>h x. if compare_files x h < 0 then x else h) h xs # after \<and>
           (\<forall>y \<in> set before.
              compare_files (foldl (\<lambda>h x. if compare_files x h < 0 then x else h) h xs) y < 0) \<and>
           (\<forall>y \<in> set after.
              compare_files (foldl (\<lambda>h x. if compare_files x h < 0 then x else h) h xs) y \<le> 0)"
  using assms
proof (induction xs arbitrary: pre h mid)
  case Nil
  then show ?case by auto
next
  case (Cons x xs)
  show ?case
  proof (cases "compare_files x h < 0")
    case True
    have a: "\<forall>y \<in> set (pre @ h # mid). compare_files x y < 0"
      using True Cons.prems by (auto simp: compare_files_less_iff compare_files_le_iff)
    have b: "\<forall>y \<in> set []. compare_files x y \<le> 0"
      by simp
    from Cons.IH [OF a b] True show ?thesis
      by simp
  next
    case False
    have b: "\<forall>y \<in> set (mid @ [x]). compare_files h y \<le> 0"
      using False Cons.prems(2) by (auto simp: compare_files_less_iff compare_files_le_iff)
    from Cons.IH [OF Cons.prems(1) b] False show ?thesis
      by simp
  qed
qed

lemma winner_of_first:
  assumes "grp \<noteq> []"
  shows "\<exists>w before after. winner_of grp = [w] \<and> grp = before @ w # after \<and>
           (\<forall>y \<in> set before. compare_files w y < 0) \<and>
           (\<forall>y \<in> set after. compare_files w y \<le> 0)"
proof -
  from assms obtain x xs where g: "grp = x # xs"
    by (cases grp) auto
  let ?w = "foldl (\<lambda>h x. if compare_files x h < 0 then x else h) x xs"
  have s: "js_sort compare_files grp \<noteq> [] \<and> hd (js_sort compare_files grp) = ?w"
    using js_sort_hd [of "[x]" compare_files xs] by (simp add: js_sort_def g)
  have w: "winner_of grp = [?w]"
  proof (cases xs)
    case Nil
    then show ?thesis by (simp add: winner_of_def g)
  next
    case (Cons y ys)
    from s obtain z zs where z: "js_sort compare_files grp = z # zs"
      by (cases "js_sort compare_files grp") auto
    with s have "z = ?w" by simp
    then show ?thesis
      using Cons z g by (simp add: winner_of_def)
  qed
  from first_best [of "[]" x "[]" xs] obtain before after where
    "x # xs = before @ ?w # after" "\<forall>y \<in> set before. compare_files ?w y < 0"
    "\<forall>y \<in> set after. compare_files ?w y \<le> 0"
    by auto
  with w g show ?thesis
    by blast
qed

lemma filter_eq_append_ConsD:
  "filter P xs = bg @ w # ag \<Longrightarrow>
   \<exists>before after. xs = before @ w # after \<and> filter P before = bg"
proof (induction bg arbitrary: xs)
  case Nil
  then obtain us vs where "xs = us @ w # vs" "\<forall>u \<in> set us. \<not> P u"
    unfolding append_Nil filter_eq_Cons_iff by blast
  then have "xs = us @ w # vs \<and> filter P us = []"
    by simp
  then show ?case by blast
next
  case (Cons b bg)
  from Cons.prems obtain us vs where u: "xs = us @ b # vs" "\<forall>u \<in> set us. \<not> P u" "P b"
    "bg @ w # ag = filter P vs"
    unfolding append_Cons filter_eq_Cons_iff by blast
  from Cons.IH [OF u(4) [symmetric]] obtain before after where
    v: "vs = before @ w # after" "filter P before = bg"
    by blast
  have "xs = (us @ b # before) @ w # after \<and> filter P (us @ b # before) = b # bg"
    using u v by simp
  then show ?case by blast
qed

text \<open>
  Claim C5, as the code has it. \<open>detectDuplicates\<close> returns exactly one winner for each
  normalised name. The winner is a member of its group that no member beats: none has
  a better format priority, and none of the same priority is newer. Among the members
  that no member beats it is the one that comes first in the input: every member of
  the group that stands before the winner in the input loses to it outright (by
  priority, or at equal priority by an older modification time). Whenever every other
  member of the group loses to the winner outright, the same file wins for every
  other order, and every repetition, of the input files.
\<close>

theorem detectDuplicates_winners:
  "distinct (map group_key (detectDuplicates files)) \<and>
   group_key ` set (detectDuplicates files) = group_key ` set files \<and>
   (\<forall>w \<in> set (detectDuplicates files).
      w \<in> set files \<and>
      (\<forall>x \<in> set files. group_key x = group_key w \<longrightarrow>
         priority w < priority x \<or>
         (priority w = priority x \<and> modifiedTime x \<le> modifiedTime w)) \<and>
      (\<exists>before after.
         files = before @ w # after \<and>
         (\<forall>x \<in> set before. group_key x = group_key w \<longrightarrow>
            priority w < priority x \<or>
            (priority w = priority x \<and> modifiedTime x < modifiedTime w))) \<and>
      (set files' = set files \<and>
       (\<forall>x \<in> set files. group_key x = group_key w \<and> x \<noteq> w \<longrightarrow>
          priority w < priority x \<or>
          (priority w = priority x \<and> modifiedTime x < modifiedTime w))
       \<longrightarrow> w \<in> set (detectDuplicates files')))"
proof -
  have d: "distinct (map group_key (detectDuplicates files))"
    using group_files_char [of files] by (simp add: detectDuplicates_keys)
  have k: "group_key ` set (detectDuplicates files) = group_key ` set files"
    using group_files_char [of files] detectDuplicates_keys [of files]
    by (metis set_map)
  have w: "w \<in> set files \<and>
      (\<forall>x \<in> set files. group_key x = group_key w \<longrightarrow>
         priority w < priority x \<or>
         (priority w = priority x \<and> modifiedTime x \<le> modifiedTime w)) \<and>
      (\<exists>before after.
         files = before @ w # after \<and>
         (\<forall>x \<in> set before. group_key x = group_key w \<longrightarrow>
            priority w < priority x \<or>
            (priority w = priority x \<and> modifiedTime x < modifiedTime w))) \<and>
      (set files' = set files \<and>
       (\<forall>x \<in> set files. group_key x = group_key w \<and> x \<noteq> w \<longrightarrow>
          priority w < priority x \<or>
          (priority w = priority x \<and> modifiedTime x < modifiedTime w))
       \<longrightarrow> w \<in> set (detectDuplicates files'))"
    if win: "w \<in> set (detectDuplicates files)" for w
  proof -
    from win obtain k where ne: "filter (\<lambda>f. group_key f = k) files \<noteq> []"
      and wk: "winner_of (filter (\<lambda>f. group_key f = k) files) = [w]"
      unfolding detectDuplicates_mem by blast
    from winner_of_minimal [OF ne] wk
    have mem: "w \<in> set (filter (\<lambda>f. group_key f = k) files)"
      and least: "\<forall>x \<in> set (filter (\<lambda>f. group_key f = k) files). compare_files w x \<le> 0"
      by auto
    have kw: "group_key w = k" and wf: "w \<in> set files"
      using mem by auto
    have min: "\<forall>x \<in> set files. group_key x = group_key w \<longrightarrow>
         priority w < priority x \<or>
         (priority w = priority x \<and> modifiedTime x \<le> modifiedTime w)"
      using least kw by (auto simp: compare_files_le_iff)
    have first: "\<exists>before after.
         files = before @ w # after \<and>
         (\<forall>x \<in> set before. group_key x = group_key w \<longrightarrow>
            priority w < priority x \<or>
            (priority w = priority x \<and> modifiedTime x < modifiedTime w))"
    proof -
      from winner_of_first [OF ne] wk obtain bg ag where
        g: "filter (\<lambda>f. group_key f = k) files = bg @ w # ag"
        and better: "\<forall>y \<in> set bg. compare_files w y < 0"
        by auto
      from filter_eq_append_ConsD [OF g] obtain before after where
        b: "files = before @ w # after" "filter (\<lambda>f. group_key f = k) before = bg"
        by blast
      have "\<forall>x \<in> set before. group_key x = group_key w \<longrightarrow>
            priority w < priority x \<or>
            (priority w = priority x \<and> modifiedTime x < modifiedTime w)"
      proof (intro ballI impI)
        fix x assume x: "x \<in> set before" "group_key x = group_key w"
        with kw b(2) have "x \<in> set bg" by auto
        with better show "priority w < priority x \<or>
            (priority w = priority x \<and> modifiedTime x < modifiedTime w)"
          by (simp add: compare_files_less_iff)
      qed
      with b(1) show ?thesis by blast
    qed
    have stable: "w \<in> set (detectDuplicates files')"
      if same: "set files' = set files"
      and strict: "\<forall>x \<in> set files. group_key x = group_key w \<and> x \<noteq> w \<longrightarrow>
          priority w < priority x \<or>
          (priority w = priority x \<and> modifiedTime x < modifiedTime w)"
    proof -
      have ne': "filter (\<lambda>f. group_key f = k) files' \<noteq> []"
        using wf kw same by (auto simp: filter_empty_conv)
      from winner_of_minimal [OF ne'] obtain w'
        where w': "winner_of (filter (\<lambda>f. group_key f = k) files') = [w']"
          and mem': "w' \<in> set (filter (\<lambda>f. group_key f = k) files')"
          and least': "\<forall>x \<in> set (filter (\<lambda>f. group_key f = k) files'). compare_files w' x \<le> 0"
        by blast
      have le: "compare_files w' w \<le> 0"
        using least' wf kw same by auto
      have "w' = w"
      proof (rule ccontr)
        assume "w' \<noteq> w"
        then have "compare_files w w' < 0"
          using strict mem' kw same by (auto simp: compare_files_less_iff)
        with le show False
          by (auto simp: compare_files_le_iff compare_files_less_iff)
      qed
      then show ?thesis
        using ne' w' unfolding detectDuplicates_mem by blast
    qed
    show ?thesis using wf min first stable by blast
  qed
  show ?thesis using d k w by blast
qed

lemma report_keys:
  "group_key report_pdf = ''report''"
  "group_key report_pptx = ''report''"
  "group_key report_slides = ''report''"
proof -
  have "detectDuplicates_normalizeName ''Report.pdf'' = ''report''" by code_simp
  moreover have "detectDuplicates_normalizeName ''Report.pptx'' = ''report''" by code_simp
  moreover have "detectDuplicates_normalizeName ''Report'' = ''report''" by code_simp
  ultimately show "group_key report_pdf = ''report''" "group_key report_pptx = ''report''"
    "group_key report_slides = ''report''"
    by (simp_all add: report_pdf_def report_pptx_def report_slides_def mk_file_def blank_file_def)
qed

lemma report_priorities:
  "priority report_pdf = 3" "priority report_pptx = 4" "priority report_slides = 0"
  by (simp_all add: report_pdf_def report_pptx_def report_slides_def mk_file_def blank_file_def
        mimeTypePriority_def)

lemma report_distinct:
  "report_pdf \<noteq> report_pptx" "report_pdf \<noteq> report_slides" "report_pptx \<noteq> report_slides"
  by (simp_all add: report_pdf_def report_pptx_def report_slides_def mk_file_def blank_file_def)

lemma distinct_set_singleton:
  assumes "set xs = {a}" and "distinct xs"
  shows "xs = [a]"
proof (cases xs)
  case Nil
  with assms show ?thesis by simp
next
  case (Cons x ys)
  with assms have "x = a" and "set ys \<subseteq> {a}" and "x \<notin> set ys"
    by auto
  have "ys = []"
  proof (cases ys)
    case Nil
    then show ?thesis .
  next
    case (Cons y zs)
    then have "y \<in> set ys" by simp
    with \<open>set ys \<subseteq> {a}\<close> have "y = a" by auto
    with \<open>y \<in> set ys\<close> \<open>x \<notin> set ys\<close> \<open>x = a\<close> show ?thesis by simp
  qed
  then show ?thesis using Cons \<open>x = a\<close> by simp
qed

lemma report_winner:
  assumes "set grp = {report_pdf, report_pptx, report_slides}"
  shows "detectDuplicates grp = [report_slides]"
proof -
  have all: "filter (\<lambda>f. group_key f = ''report'') grp = grp"
    using assms by (auto simp: filter_id_conv report_keys)
  have keys: "map fst (group_files grp) = [''report'']"
  proof -
    have "set (map fst (group_files grp)) = {''report''}"
      using group_files_char [of grp] assms by (auto simp: report_keys)
    moreover have "distinct (map fst (group_files grp))"
      using group_files_char [of grp] by blast
    ultimately show ?thesis
      by (rule distinct_set_singleton)
  qed
  have ne: "grp \<noteq> []" using assms by auto
  then have "(''report'', grp) \<in> set (group_files grp)"
    using all by (simp add: group_files_entry)
  with keys have g: "group_files grp = [(''report'', grp)]"
    by (cases "group_files grp") auto
  from winner_of_minimal [OF ne] obtain w where w: "winner_of grp = [w]" "w \<in> set grp"
    "\<forall>x \<in> set grp. compare_files w x \<le> 0"
    by blast
  have "compare_files w report_slides \<le> 0"
    using w(3) assms by simp
  then have "w = report_slides"
    using w(2) assms by (auto simp: compare_files_le_iff report_priorities)
  then show ?thesis
    by (simp add: detectDuplicates_def g w(1))
qed

theorem detectDuplicates_winners_witness:
  "detectDuplicates [report_pdf, report_pptx, report_slides] = [report_slides] \<and>
   detectDuplicates [report_pdf, report_slides, report_pptx] = [report_slides] \<and>
   detectDuplicates [report_pptx, report_pdf, report_slides] = [report_slides] \<and>
   detectDuplicates [report_pptx, report_slides, report_pdf] = [report_slides] \<and>
   detectDuplicates [report_slides, report_pdf, report_pptx] = [report_slides] \<and>
   detectDuplicates [report_slides, report_pptx, report_pdf] = [report_slides] \<and>
   modifiedTime report_slides < modifiedTime report_pptx \<and>
   report_slides \<in> set (detectDuplicates [report_slides, report_slides, report_pptx, report_pdf])"
proof -
  let ?files = "[report_pdf, report_pptx, report_slides]"
  let ?files' = "[report_slides, report_slides, report_pptx, report_pdf]"
  have six:
    "detectDuplicates [report_pdf, report_pptx, report_slides] = [report_slides]"
    "detectDuplicates [report_pdf, report_slides, report_pptx] = [report_slides]"
    "detectDuplicates [report_pptx, report_pdf, report_slides] = [report_slides]"
    "detectDuplicates [report_pptx, report_slides, report_pdf] = [report_slides]"
    "detectDuplicates [report_slides, report_pdf, report_pptx] = [report_slides]"
    "detectDuplicates [report_slides, report_pptx, report_pdf] = [report_slides]"
    by (rule report_winner, auto)+
  have win: "report_slides \<in> set (detectDuplicates ?files)"
    by (simp add: six)
  have same: "set ?files' = set ?files"
    by auto
  have strict: "\<forall>x \<in> set ?files. group_key x = group_key report_slides \<and> x \<noteq> report_slides \<longrightarrow>
          priority report_slides < priority x \<or>
          (priority report_slides = priority x \<and> modifiedTime x < modifiedTime report_slides)"
    by (simp add: report_priorities)
  have "report_slides \<in> set (detectDuplicates ?files')"
    using detectDuplicates_winners [of ?files ?files'] win same strict by blast
  moreover have "modifiedTime report_slides < modifiedTime report_pptx"
    by (simp add: report_slides_def report_pptx_def mk_file_def blank_file_def)
  ultimately show ?thesis
    using six by blast
qed

text \<open>
  Claim C5 fails on the code where two members of a group tie on both format priority
  and modification time: the sort is stable, so the member that comes first in the
  input wins, and reversing the input changes the winner.
\<close>

theorem detectDuplicates_tie_depends_on_order:
  "detectDuplicates [twin_a, twin_b] = [twin_a] \<and>
   detectDuplicates [twin_b, twin_a] = [twin_b] \<and>
   twin_a \<noteq> twin_b"
proof -
  have n: "detectDuplicates_normalizeName ''Report.pdf'' = ''report''" by code_simp
  have k: "group_key twin_a = ''report''" "group_key twin_b = ''report''"
    by (simp_all add: n twin_a_def twin_b_def mk_file_def blank_file_def)
  have c: "compare_files twin_a twin_b = 0" "compare_files twin_b twin_a = 0"
    by (simp_all add: compare_files_def twin_a_def twin_b_def mk_file_def blank_file_def)
  have g1: "group_files [twin_a, twin_b] = [(''report'', [twin_a, twin_b])]"
    by (simp add: group_files_def add_to_group_def k map_has_def map_set_def map_get_def Let_def)
  have g2: "group_files [twin_b, twin_a] = [(''report'', [twin_b, twin_a])]"
    by (simp add: group_files_def add_to_group_def k map_has_def map_set_def map_get_def Let_def)
  have "twin_a \<noteq> twin_b"
    by (simp add: twin_a_def twin_b_def mk_file_def blank_file_def)
  then show ?thesis
    by (simp add: detectDuplicates_def g1 g2 winner_of_def js_sort_def c)
qed

section \<open>Chunking: the size of a chunk\<close>







subsection \<open>The lines of a chunk\<close>












lemma split_lines_single: "newline \<notin> set t \<Longrightarrow> split_lines t = [t]"
  by (induction t) auto

lemma trim_line:
  assumes "s \<noteq> []" and "\<not> is_space (hd s)" and "\<not> is_space (last s)"
  shows "trim (s @ [newline]) = s"
proof -
  have a: "dropWhile is_space (s @ [newline]) = s @ [newline]"
    using assms(1,2) by (cases s) auto
  have b: "is_space newline"
    by (simp add: is_space_def newline_def)
  have c: "dropWhile is_space (rev s) = rev s"
    using assms(1,3) by (simp add: dropWhile_eq_self_iff hd_rev)
  show ?thesis
    by (simp add: trim_def a b c)
qed

lemma chunkText_single_line:
  assumes "newline \<notin> set t" and "t \<noteq> []" and "\<not> is_space (hd t)" and "\<not> is_space (last t)"
  shows "chunkText t chunkSize overlap = [\<lparr> chunk_body = t, lineFrom = 1, lineTo = 1 \<rparr>]"
  using assms
  by (simp add: chunkText_def split_lines_single chunk_step_def trim_line first_or_1_def
        last_or_1_def Let_def)


section \<open>Evaluating the stages on the concrete files\<close>

lemma keep_deck_memo: "keep_file file_deck" "keep_file file_memo"
  by code_simp+

lemma keys_deck_memo: "group_key file_deck = ''deck''" "group_key file_memo = ''memo''"
  by code_simp+

lemma filterFiles_cases:
  "filterFiles [] = []"
  "filterFiles [file_deck] = [file_deck]"
  "filterFiles [file_memo] = [file_memo]"
  "filterFiles [file_memo, file_deck] = [file_memo, file_deck]"
  "filterFiles [file_deck, file_memo] = [file_deck, file_memo]"
  by (simp_all add: filterFiles_def keep_deck_memo)

lemma detectDuplicates_cases:
  "detectDuplicates [] = []"
  "detectDuplicates [file_deck] = [file_deck]"
  "detectDuplicates [file_memo] = [file_memo]"
  "detectDuplicates [file_memo, file_deck] = [file_memo, file_deck]"
  "detectDuplicates [file_deck, file_memo] = [file_deck, file_memo]"
  by (simp_all add: detectDuplicates_def group_files_def add_to_group_def keys_deck_memo
        map_has_def map_set_def map_get_def winner_of_def Let_def)

lemma trim_sixty_x: "trim sixty_x = sixty_x"
proof -
  have "\<forall>c \<in> set sixty_x. \<not> is_space c"
    by (simp add: sixty_x_def is_space_def)
  then have "dropWhile is_space sixty_x = sixty_x" "dropWhile is_space (rev sixty_x) = rev sixty_x"
    by (simp_all add: dropWhile_eq_self_iff sixty_x_def hd_rev)
  then show ?thesis by (simp add: trim_def)
qed

lemma chunkText_sixty_x:
  "chunkText sixty_x 1000 200 = [\<lparr> chunk_body = sixty_x, lineFrom = 1, lineTo = 1 \<rparr>]"
  by (rule chunkText_single_line)
     (simp_all add: sixty_x_def is_space_def newline_def hd_replicate last_replicate)

lemma extract_good:
  "extract_text (good_env files) file_deck = Inr sixty_x"
  "extract_text (good_env files) file_memo = Inr sixty_x"
  by (simp_all add: extract_text_def good_env_def file_deck_def file_memo_def mk_file_def
        blank_file_def)

lemma indexFile_sole:
  assumes "extract_text e f = Inr sixty_x"
      and "createEmbedding e sixty_x = Inr [0]"
      and "uuidv4 e (uuid_count w) = replicate (Suc (uuid_count w)) CHR ''u''"
      and "upsert_error e [sole_vector f today (uuid_count w)] = None"
  shows "indexFile e today w f =
           (Success 1 1,
            \<lparr> index = upsert1 (index w) (sole_vector f today (uuid_count w)),
              uuid_count = uuid_count w + 1 \<rparr>)"
proof -
  have len: "\<not> length sixty_x < 50" "sixty_x \<noteq> []"
    by (simp_all add: sixty_x_def)
  have cv: "createVectors e f (Some today) [\<lparr> chunk_body = sixty_x, lineFrom = 1, lineTo = 1 \<rparr>] (uuid_count w) =
              (Inr [sole_vector f today (uuid_count w)], uuid_count w + 1)"
    by (simp add: createVectors_def assms(2,3) sole_vector_def)
  have up: "uploadToPinecone e (index w) [sole_vector f today (uuid_count w)] =
              (None, upsert1 (index w) (sole_vector f today (uuid_count w)))"
    by (simp add: uploadToPinecone.simps assms(4) index_upsert_def)
  show ?thesis
    using cv up by (simp add: indexFile_def assms(1) trim_sixty_x len chunkText_sixty_x)
qed

section \<open>The run: per-item failures and the exit code\<close>

lemma index_new_log:
  "index_new e today files (res, t) = (res', t') \<Longrightarrow>
     map fst (item_log t') = map fst (item_log t) @ files \<and>
     newFailed res' =
       newFailed res + length (filter (\<lambda>(f, r). \<not> success r) (drop (length (item_log t)) (item_log t'))) \<and>
     modifiedFailed res' = modifiedFailed res \<and>
     take (length (item_log t)) (item_log t') = item_log t"
proof (induction files arbitrary: res t)
  case Nil
  then show ?case by simp
next
  case (Cons f fs)
  obtain result w' where i: "indexFile e today (final_world t) f = (result, w')"
    by (cases "indexFile e today (final_world t) f")
  let ?res = "if success result then res\<lparr>newIndexed := newIndexed res + 1\<rparr>
              else res\<lparr>newFailed := newFailed res + 1\<rparr>"
  let ?t = "\<lparr> final_world = w', item_log = item_log t @ [(f, result)] \<rparr>"
  from Cons.prems have "index_new e today fs (?res, ?t) = (res', t')"
    by (simp add: i)
  from Cons.IH [OF this] have ih:
    "map fst (item_log t') = map fst (item_log ?t) @ fs"
    "newFailed res' = newFailed ?res +
       length (filter (\<lambda>(f, r). \<not> success r) (drop (length (item_log ?t)) (item_log t')))"
    "modifiedFailed res' = modifiedFailed ?res"
    "take (length (item_log ?t)) (item_log t') = item_log ?t"
    by blast+
  from ih(4) obtain rest where rest: "item_log t' = item_log t @ (f, result) # rest"
    by (metis append.assoc append_Cons append_Nil append_take_drop_id trace.select_convs(2))
  show ?case
    using ih(1,2,3) by (auto simp: rest)
qed

lemma deleteFileVectors_returns:
  assumes "query_error e (Some fid) = None" and "\<forall>ids. deleteMany_error e ids = None"
  shows "\<exists>n w'. deleteFileVectors e w fid = (Inr n, w')"
  using assms by (simp add: deleteFileVectors_def Let_def)

lemma reindex_modified_log:
  assumes "\<forall>(f, v) \<in> set ms. query_error e (Some (file_id f)) = None"
      and "\<forall>ids. deleteMany_error e ids = None"
  shows "\<exists>res' t'. reindex_modified e today ms (res, t) = (Inr res', t') \<and>
     map fst (item_log t') = map fst (item_log t) @ map fst ms \<and>
     modifiedFailed res' =
       modifiedFailed res +
       length (filter (\<lambda>(f, r). \<not> success r) (drop (length (item_log t)) (item_log t'))) \<and>
     newFailed res' = newFailed res \<and>
     take (length (item_log t)) (item_log t') = item_log t"
  using assms(1)
proof (induction ms arbitrary: res t)
  case Nil
  then show ?case by simp
next
  case (Cons m ms)
  obtain f v where m: "m = (f, v)" by (cases m)
  from Cons.prems m have q: "query_error e (Some (file_id f)) = None"
    by simp
  from deleteFileVectors_returns [OF q assms(2)] obtain n w'
    where d: "deleteFileVectors e (final_world t) (file_id f) = (Inr n, w')"
    by blast
  obtain result w'' where i: "indexFile e today w' f = (result, w'')"
    by (cases "indexFile e today w' f")
  let ?res = "if success result then res\<lparr>modifiedReIndexed := modifiedReIndexed res + 1\<rparr>
              else res\<lparr>modifiedFailed := modifiedFailed res + 1\<rparr>"
  let ?t = "\<lparr> final_world = w'', item_log = item_log t @ [(f, result)] \<rparr>"
  from Cons.prems have "\<forall>(f, v) \<in> set ms. query_error e (Some (file_id f)) = None"
    by simp
  from Cons.IH [OF this, of ?res ?t] obtain res' t' where ih:
    "reindex_modified e today ms (?res, ?t) = (Inr res', t')"
    "map fst (item_log t') = map fst (item_log ?t) @ map fst ms"
    "modifiedFailed res' = modifiedFailed ?res +
       length (filter (\<lambda>(f, r). \<not> success r) (drop (length (item_log ?t)) (item_log t')))"
    "newFailed res' = newFailed ?res"
    "take (length (item_log ?t)) (item_log t') = item_log ?t"
    by blast
  from ih(5) obtain rest where rest: "item_log t' = item_log t @ (f, result) # rest"
    by (metis append.assoc append_Cons append_Nil append_take_drop_id trace.select_convs(2))
  have "reindex_modified e today (m # ms) (res, t) = (Inr res', t')"
    using ih(1) by (simp add: m d i)
  then show ?case
    using ih(2,3,4) by (auto simp: rest m)
qed

text \<open>
  Failures inside \<open>indexFile\<close>. Whatever happens there (an extraction error, a text
  that is too short, an embedding error, an upload error) is returned as a failure
  and the loops go on: when the listing, the index queries, the classification and
  the deletions before re-indexing raise no error, \<open>run\<close> returns an exit code, has
  called \<open>indexFile\<close> once for every NEW and every MODIFIED file in order, and the
  exit code is non-zero exactly when one of these calls failed.
\<close>

theorem run_exit_code:
  assumes "scanGoogleDrive e = Inr allFiles"
      and "query_error e None = None"
      and "classifyChanges now (detectDuplicates (filterFiles allFiles))
             (load_matches (index_query (index w) None)) = Inr c"
      and "\<forall>(f, v) \<in> set (modifiedFiles c). query_error e (Some (file_id f)) = None"
      and "\<forall>ids. deleteMany_error e ids = None"
  shows "\<exists>code t. run e now w = (Inr code, t) \<and>
           map fst (item_log t) = newFiles c @ map fst (modifiedFiles c) \<and>
           (code \<noteq> 0 \<longleftrightarrow> (\<exists>(f, result) \<in> set (item_log t). \<not> success result)) \<and>
           process_exit_code (fst (run e now w)) = code"
proof -
  let ?res0 = "\<lparr> newIndexed = 0, newFailed = 0, modifiedReIndexed = 0, modifiedFailed = 0 \<rparr>"
  let ?t0 = "\<lparr> final_world = w, item_log = [] \<rparr>"
  obtain res1 t1 where n: "index_new e (date_of now) (newFiles c) (?res0, ?t0) = (res1, t1)"
    by (cases "index_new e (date_of now) (newFiles c) (?res0, ?t0)")
  from index_new_log [OF n] have n1:
    "map fst (item_log t1) = newFiles c"
    "newFailed res1 = length (filter (\<lambda>(f, r). \<not> success r) (item_log t1))"
    "modifiedFailed res1 = 0"
    by simp_all
  from reindex_modified_log [OF assms(4,5), of "date_of now" res1 t1] obtain res2 t2 where m:
    "reindex_modified e (date_of now) (modifiedFiles c) (res1, t1) = (Inr res2, t2)"
    "map fst (item_log t2) = map fst (item_log t1) @ map fst (modifiedFiles c)"
    "modifiedFailed res2 = modifiedFailed res1 +
       length (filter (\<lambda>(f, r). \<not> success r) (drop (length (item_log t1)) (item_log t2)))"
    "newFailed res2 = newFailed res1"
    "take (length (item_log t1)) (item_log t2) = item_log t1"
    by blast
  have split: "item_log t2 = item_log t1 @ drop (length (item_log t1)) (item_log t2)"
    using m(5) by (metis append_take_drop_id)
  have "length (filter (\<lambda>(f, r). \<not> success r) (item_log t2)) =
          length (filter (\<lambda>(f, r). \<not> success r) (item_log t1)) +
          length (filter (\<lambda>(f, r). \<not> success r) (drop (length (item_log t1)) (item_log t2)))"
    by (subst split) (simp only: filter_append length_append)
  then have total: "newFailed res2 + modifiedFailed res2 =
                 length (filter (\<lambda>(f, r). \<not> success r) (item_log t2))"
    using n1(2,3) m(3,4) by simp
  have r: "run e now w = (Inr (exit_code_of res2), t2)"
    using assms(1,2,3) n m(1) by (simp add: run_def loadPineconeState_def Let_def)
  have "exit_code_of res2 \<noteq> 0 \<longleftrightarrow> (\<exists>(f, result) \<in> set (item_log t2). \<not> success result)"
    using total by (auto simp: exit_code_of_def filter_empty_conv)
  then show ?thesis
    using r m(2) n1(1) by (simp add: process_exit_code_def)
qed

lemma date_of_at: "date_of at_11 = 20000" "date_of at_12 = 20000"
  by (simp_all add: date_of_def at_11_def at_12_def ms_per_day_def)

lemma classify_empty_index:
  "classifyChanges now fs (load_matches (index_query [] None)) =
     Inr \<lparr> newFiles = fs, modifiedFiles = [], unchangedFiles = [] \<rparr>"
proof -
  have st: "load_matches (index_query [] None) = empty_state"
    by (simp add: load_matches_def index_query_def)
  have one: "classify_file now empty_state f = Inr NEW" for f
    by (simp add: classify_file_def find_pineconeData_def empty_state_def map_get_def
          allPineconeFiles_def map_values_def)
  have "classify_loop now empty_state c fs = Inr (c\<lparr>newFiles := newFiles c @ fs\<rparr>)" for c
    by (induction fs arbitrary: c) (simp_all add: one push_verdict_def)
  then show ?thesis
    by (simp add: classifyChanges_def st)
qed

theorem run_exit_code_witness:
  "scanGoogleDrive (doc_failing_env [file_memo, file_deck]) = Inr [file_memo, file_deck] \<and>
   query_error (doc_failing_env [file_memo, file_deck]) None = None \<and>
   (\<forall>ids. deleteMany_error (doc_failing_env [file_memo, file_deck]) ids = None) \<and>
   run (doc_failing_env [file_memo, file_deck]) at_11 empty_world =
     (Inr 1,
      \<lparr> final_world = \<lparr> index = [sole_vector file_deck 20000 0], uuid_count = 1 \<rparr>,
        item_log = [(file_memo, Failure ''Drive API error''), (file_deck, Success 1 1)] \<rparr>) \<and>
   process_exit_code (fst (run (doc_failing_env [file_memo, file_deck]) at_11 empty_world)) = 1"
proof -
  let ?e = "doc_failing_env [file_memo, file_deck]"
  let ?c = "\<lparr> newFiles = [file_memo, file_deck], modifiedFiles = [], unchangedFiles = [] \<rparr>"
  have h1: "scanGoogleDrive ?e = Inr [file_memo, file_deck]"
    by (simp add: doc_failing_env_def good_env_def)
  have h2: "query_error ?e None = None"
    by (simp add: doc_failing_env_def good_env_def)
  have h3: "classifyChanges at_11 (detectDuplicates (filterFiles [file_memo, file_deck]))
              (load_matches (index_query (index empty_world) None)) = Inr ?c"
    by (simp add: filterFiles_cases detectDuplicates_cases empty_world_def classify_empty_index)
  have h4: "\<forall>(f, v) \<in> set (modifiedFiles ?c). query_error ?e (Some (file_id f)) = None"
    by simp
  have h5: "\<forall>ids. deleteMany_error ?e ids = None"
    by (simp add: doc_failing_env_def good_env_def)
  from run_exit_code [OF h1 h2 h3 h4 h5] obtain code t where r:
    "run ?e at_11 empty_world = (Inr code, t)"
    "map fst (item_log t) = newFiles ?c @ map fst (modifiedFiles ?c)"
    "code \<noteq> 0 \<longleftrightarrow> (\<exists>(f, result) \<in> set (item_log t). \<not> success result)"
    "process_exit_code (fst (run ?e at_11 empty_world)) = code"
    by blast
  have memo: "indexFile ?e 20000 empty_world file_memo = (Failure ''Drive API error'', empty_world)"
    by (simp add: indexFile_def extract_text_def doc_failing_env_def good_env_def file_memo_def
          mk_file_def blank_file_def message_def)
  have deck: "indexFile ?e 20000 empty_world file_deck =
                (Success 1 1, \<lparr> index = [sole_vector file_deck 20000 0], uuid_count = 1 \<rparr>)"
    using indexFile_sole [of ?e file_deck empty_world 20000]
    by (simp add: extract_text_def doc_failing_env_def good_env_def file_deck_def mk_file_def
          blank_file_def empty_world_def upsert1_def)
  have v: "run ?e at_11 empty_world =
     (Inr 1,
      \<lparr> final_world = \<lparr> index = [sole_vector file_deck 20000 0], uuid_count = 1 \<rparr>,
        item_log = [(file_memo, Failure ''Drive API error''), (file_deck, Success 1 1)] \<rparr>)"
    using h3
    by (simp add: run_def h1 loadPineconeState_def h2 Let_def date_of_at memo deck success_def
          exit_code_of_def)
  show ?thesis
    using h1 h2 h5 v r by simp
qed

text \<open>
  An error outside \<open>indexFile\<close> ends the run. With an index that cannot be queried
  the run stops in the loader, no file is processed and none fails, and the process
  exits with code 1.
\<close>

theorem fatal_error_exit_code:
  "run (unreachable_index_env [file_memo]) at_11 empty_world =
     (Inl (Thrown ''index unavailable''), \<lparr> final_world = empty_world, item_log = [] \<rparr>) \<and>
   process_exit_code (fst (run (unreachable_index_env [file_memo]) at_11 empty_world)) = 1"
  by (simp add: run_def loadPineconeState_def unreachable_index_env_def good_env_def
        process_exit_code_def)

section \<open>Re-indexing a file matched to a legacy document\<close>

lemma show_nat_0: "show_nat 0 = ''0''"
  by (simp add: show_nat.simps digit_char_def)

lemma query_small: "length idx \<le> topK \<Longrightarrow> index_query idx None = idx"
  by (simp add: index_query_def)

lemma topK_ge_2: "Suc 0 \<le> topK" "2 \<le> topK"
  by (simp_all add: topK_def)

lemma good_env_simps:
  "scanGoogleDrive (good_env fs) = Inr fs"
  "createEmbedding (good_env fs) text = Inr [0]"
  "uuidv4 (good_env fs) n = replicate (Suc n) CHR ''u''"
  "upsert_error (good_env fs) batch = None"
  "query_error (good_env fs) flt = None"
  "deleteMany_error (good_env fs) ids = None"
  by (simp_all add: good_env_def)

lemma file_simps:
  "file_id file_deck = ''f1''" "file_name file_deck = ''Deck''"
  "modifiedTime file_deck = 1728036000000"
  "file_id file_memo = ''f2''" "file_name file_memo = ''Memo''"
  "modifiedTime file_memo = 1728036000000"
  by (simp_all add: file_deck_def file_memo_def mk_file_def blank_file_def)

lemma sole_vector_simps:
  "vector_id (sole_vector f today n) = file_id f @ ''_chunk_0_'' @ replicate (Suc n) CHR ''u''"
  "File_id (vector_metadata (sole_vector f today n)) = Some (file_id f)"
  "File_name (vector_metadata (sole_vector f today n)) = Some (file_name f)"
  "File_lastSyncDate (vector_metadata (sole_vector f today n)) = Some today"
  "File_modifiedDate (vector_metadata (sole_vector f today n)) = Some (date_of (modifiedTime f))"
  by (simp_all add: sole_vector_def make_vector_def show_nat.simps digit_char_def)

text \<open>
  Claim C3 is not met by the code where the matched document is a legacy document.
  \<open>run\<close> calls \<open>deleteFileVectors\<close> with the id of the Drive file, and the query of
  \<open>deleteFileVectors\<close> filters on \<^verbatim>\<open>File.id\<close>, which a legacy record does not
  carry. The file \<^verbatim>\<open>Deck\<close> is matched by name to the legacy document and classified
  MODIFIED; nothing is deleted; the re-index succeeds; the legacy record is still in
  the index, next to the new one.
\<close>

theorem legacy_chunk_survives_reindex:
  "classifyChanges at_11 (detectDuplicates (filterFiles [file_deck]))
     (load_matches (index_query (index legacy_world) None)) =
     Inr \<lparr> newFiles = [],
           modifiedFiles = [(file_deck, MODIFIED_legacy (new_pinecone_data legacy_chunk None False))],
           unchangedFiles = [] \<rparr> \<and>
   deleteFileVectors (good_env [file_deck]) legacy_world (file_id file_deck) = (Inr 0, legacy_world) \<and>
   run (good_env [file_deck]) at_11 legacy_world =
     (Inr 0,
      \<lparr> final_world = \<lparr> index = [legacy_chunk, sole_vector file_deck 20000 0], uuid_count = 1 \<rparr>,
        item_log = [(file_deck, Success 1 1)] \<rparr>)"
proof -
  let ?e = "good_env [file_deck]"
  have q: "index_query (index legacy_world) None = [legacy_chunk]"
    by (simp add: legacy_world_def query_small topK_ge_2)
  have st: "load_matches [legacy_chunk] =
              \<lparr> pineconeFiles = [],
                pineconeFilesByName = [(''Deck'', new_pinecone_data legacy_chunk None False)],
                latestSyncDate = None \<rparr>"
    by (simp add: load_matches_def load_match_def empty_state_def legacy_chunk_def mk_vector_def
          blank_vector_def blank_metadata_def truthy_def count_vector_def map_get_def
          map_set_def map_has_def Let_def)
  have c: "classifyChanges at_11 (detectDuplicates (filterFiles [file_deck]))
     (load_matches (index_query (index legacy_world) None)) =
     Inr \<lparr> newFiles = [],
           modifiedFiles = [(file_deck, MODIFIED_legacy (new_pinecone_data legacy_chunk None False))],
           unchangedFiles = [] \<rparr>"
    by (simp add: q st filterFiles_cases detectDuplicates_cases classifyChanges_def
          classify_file_def find_pineconeData_def map_get_def file_simps cutoffDate_def
          at_11_def new_pinecone_data_def push_verdict_def)
  have d: "deleteFileVectors ?e legacy_world (file_id file_deck) = (Inr 0, legacy_world)"
    by (simp add: deleteFileVectors_def good_env_simps index_query_def legacy_world_def
          legacy_chunk_def mk_vector_def blank_vector_def blank_metadata_def)
  have i: "indexFile ?e 20000 legacy_world file_deck =
             (Success 1 1,
              \<lparr> index = [legacy_chunk, sole_vector file_deck 20000 0], uuid_count = 1 \<rparr>)"
    using indexFile_sole [of ?e file_deck legacy_world 20000]
    by (simp add: extract_good good_env_simps legacy_world_def upsert1_def sole_vector_simps
          file_simps legacy_chunk_def mk_vector_def blank_vector_def)
  have r: "run ?e at_11 legacy_world =
     (Inr 0,
      \<lparr> final_world = \<lparr> index = [legacy_chunk, sole_vector file_deck 20000 0], uuid_count = 1 \<rparr>,
        item_log = [(file_deck, Success 1 1)] \<rparr>)"
    using c d
    by (simp add: run_def good_env_simps loadPineconeState_def Let_def date_of_at i success_def
          exit_code_of_def)
  show ?thesis using c d r by simp
qed

section \<open>A deletion that fails before a re-index\<close>

lemma stale_chunk_simps:
  "vector_id (stale_chunk vid f) = vid"
  "File_id (vector_metadata (stale_chunk vid f)) = Some (file_id f)"
  "File_name (vector_metadata (stale_chunk vid f)) = Some (file_name f)"
  "File_lastSyncDate (vector_metadata (stale_chunk vid f)) = Some 19990"
  "File_modifiedDate (vector_metadata (stale_chunk vid f)) = Some 19990"
  "File_version (vector_metadata (stale_chunk vid f)) = None"
  "File_md5 (vector_metadata (stale_chunk vid f)) = None"
  "File_size (vector_metadata (stale_chunk vid f)) = None"
  by (simp_all add: stale_chunk_def blank_vector_def blank_metadata_def)

text \<open>
  Claim C9 is not met by the code where the deletion before a re-index fails. \<open>run\<close>
  calls \<open>deleteFileVectors\<close> outside any \<^verbatim>\<open>try\<close>, so what \<^verbatim>\<open>deleteMany\<close> throws for one
  MODIFIED file is not caught as a failure of that file: it ends the run. The files
  \<^verbatim>\<open>Deck\<close> and \<^verbatim>\<open>Memo\<close> are both classified MODIFIED; deleting the record of
  \<^verbatim>\<open>Deck\<close> fails, while deleting the record of \<^verbatim>\<open>Memo\<close> would not; the run ends with
  the error, \<open>indexFile\<close> has been called for neither file, the index is as it was,
  and the process exits with code 1 although no failure of an item was counted. With
  a \<^verbatim>\<open>deleteMany\<close> that succeeds the same run re-indexes both files.
\<close>

theorem delete_error_aborts_run:
  "classifyChanges at_11 (detectDuplicates (filterFiles [file_deck, file_memo]))
     (load_matches (index_query (index stale_world) None)) =
     Inr \<lparr> newFiles = [],
           modifiedFiles =
             [(file_deck,
               MODIFIED \<lparr> versionChanged = False, dateChanged = True, hashChanged = False,
                          nameChanged = False, sizeChanged = False \<rparr>
                 (new_pinecone_data (stale_chunk ''d-1'' file_deck) (Some ''f1'') True)),
              (file_memo,
               MODIFIED \<lparr> versionChanged = False, dateChanged = True, hashChanged = False,
                          nameChanged = False, sizeChanged = False \<rparr>
                 (new_pinecone_data (stale_chunk ''m-1'' file_memo) (Some ''f2'') True))],
           unchangedFiles = [] \<rparr> \<and>
   deleteMany_error (delete_failing_env [file_deck, file_memo]) [''m-1''] = None \<and>
   run (delete_failing_env [file_deck, file_memo]) at_11 stale_world =
     (Inl (Thrown ''delete failed''), \<lparr> final_world = stale_world, item_log = [] \<rparr>) \<and>
   process_exit_code (fst (run (delete_failing_env [file_deck, file_memo]) at_11 stale_world)) = 1 \<and>
   run (good_env [file_deck, file_memo]) at_11 stale_world =
     (Inr 0,
      \<lparr> final_world =
          \<lparr> index = [sole_vector file_deck 20000 0, sole_vector file_memo 20000 1],
            uuid_count = 2 \<rparr>,
        item_log = [(file_deck, Success 1 1), (file_memo, Success 1 1)] \<rparr>)"
proof -
  let ?e = "delete_failing_env [file_deck, file_memo]"
  let ?g = "good_env [file_deck, file_memo]"
  let ?d = "stale_chunk ''d-1'' file_deck"
  let ?m = "stale_chunk ''m-1'' file_memo"
  let ?pd = "new_pinecone_data ?d (Some ''f1'') True"
  let ?pm = "new_pinecone_data ?m (Some ''f2'') True"
  let ?sig = "\<lparr> versionChanged = False, dateChanged = True, hashChanged = False,
                 nameChanged = False, sizeChanged = False \<rparr>"
  have W: "detectDuplicates (filterFiles [file_deck, file_memo]) = [file_deck, file_memo]"
    by (simp add: filterFiles_cases detectDuplicates_cases)
  have q: "index_query (index stale_world) None = [?d, ?m]"
    by (simp add: stale_world_def index_query_def topK_def)
  have st: "load_matches [?d, ?m] =
              \<lparr> pineconeFiles = [(''f1'', ?pd), (''f2'', ?pm)], pineconeFilesByName = [],
                latestSyncDate = Some 19990 \<rparr>"
    by (simp add: load_matches_def load_match_def empty_state_def stale_chunk_simps file_simps
          truthy_def count_vector_def map_get_def map_set_def map_has_def Let_def)
  have pd: "hasFileId ?pd" "pd_File_modifiedDate ?pd = Some 19990" "pd_File_version ?pd = 0"
    "pd_File_md5 ?pd = None" "pd_File_size ?pd = None" "pd_File_name ?pd = Some ''Deck''"
    "hasFileId ?pm" "pd_File_modifiedDate ?pm = Some 19990" "pd_File_version ?pm = 0"
    "pd_File_md5 ?pm = None" "pd_File_size ?pm = None" "pd_File_name ?pm = Some ''Memo''"
    by (simp_all add: new_pinecone_data_def stale_chunk_simps file_simps)
  have fd: "file_version file_deck = None" "md5Checksum file_deck = None"
    "file_size file_deck = None" "file_version file_memo = None" "md5Checksum file_memo = None"
    "file_size file_memo = None"
    by (simp_all add: file_deck_def file_memo_def mk_file_def blank_file_def)
  have sg: "compute_signals file_deck ?pd = ?sig" "compute_signals file_memo ?pm = ?sig"
    by (simp_all add: compute_signals_def pd fd file_simps start_of_day_def ms_per_day_def
          truthy_def)
  have c: "classifyChanges at_11 (detectDuplicates (filterFiles [file_deck, file_memo]))
              (load_matches (index_query (index stale_world) None)) =
            Inr \<lparr> newFiles = [],
                  modifiedFiles = [(file_deck, MODIFIED ?sig ?pd), (file_memo, MODIFIED ?sig ?pm)],
                  unchangedFiles = [] \<rparr>"
    unfolding W q st
    by (simp add: classifyChanges_def classify_file_def find_pineconeData_def map_get_def
          file_simps cutoffDate_def start_of_day_def ms_per_day_def pd sg push_verdict_def)
  have ok: "deleteMany_error ?e [''m-1''] = None"
    by (simp add: delete_failing_env_def)
  have env: "scanGoogleDrive ?e = Inr [file_deck, file_memo]" "query_error ?e flt = None"
    "deleteMany_error ?e ids = (if ids = [''d-1''] then Some (Thrown ''delete failed'') else None)"
    for flt ids
    by (simp_all add: delete_failing_env_def good_env_def)
  have d: "deleteFileVectors ?e stale_world (file_id file_deck) =
             (Inl (Thrown ''delete failed''), stale_world)"
    by (simp add: deleteFileVectors_def env index_query_def topK_def stale_world_def
          stale_chunk_simps file_simps Let_def)
  have r: "run ?e at_11 stale_world =
             (Inl (Thrown ''delete failed''), \<lparr> final_world = stale_world, item_log = [] \<rparr>)"
    using c d by (simp add: run_def env loadPineconeState_def Let_def date_of_at)
  have x: "process_exit_code (fst (run ?e at_11 stale_world)) = 1"
    by (simp add: r process_exit_code_def)
  have d1: "deleteFileVectors ?g stale_world (file_id file_deck) =
              (Inr 1, \<lparr> index = [?m], uuid_count = 0 \<rparr>)"
    by (simp add: deleteFileVectors_def good_env_simps index_query_def topK_def stale_world_def
          stale_chunk_simps file_simps index_deleteMany_def Let_def)
  have i1: "indexFile ?g 20000 \<lparr> index = [?m], uuid_count = 0 \<rparr> file_deck =
              (Success 1 1, \<lparr> index = [?m, sole_vector file_deck 20000 0], uuid_count = 1 \<rparr>)"
    using indexFile_sole [of ?g file_deck "\<lparr> index = [?m], uuid_count = 0 \<rparr>" 20000]
    by (simp add: extract_good good_env_simps upsert1_def sole_vector_simps file_simps
          stale_chunk_simps)
  have d2: "deleteFileVectors ?g \<lparr> index = [?m, sole_vector file_deck 20000 0], uuid_count = 1 \<rparr>
              (file_id file_memo) =
              (Inr 1, \<lparr> index = [sole_vector file_deck 20000 0], uuid_count = 1 \<rparr>)"
    by (simp add: deleteFileVectors_def good_env_simps index_query_def topK_def
          sole_vector_simps stale_chunk_simps file_simps index_deleteMany_def Let_def)
  have i2: "indexFile ?g 20000 \<lparr> index = [sole_vector file_deck 20000 0], uuid_count = 1 \<rparr> file_memo =
              (Success 1 1,
               \<lparr> index = [sole_vector file_deck 20000 0, sole_vector file_memo 20000 1],
                 uuid_count = 2 \<rparr>)"
    using indexFile_sole [of ?g file_memo
        "\<lparr> index = [sole_vector file_deck 20000 0], uuid_count = 1 \<rparr>" 20000]
    by (simp add: extract_good good_env_simps upsert1_def sole_vector_simps file_simps)
  have g: "run ?g at_11 stale_world =
     (Inr 0,
      \<lparr> final_world =
          \<lparr> index = [sole_vector file_deck 20000 0, sole_vector file_memo 20000 1],
            uuid_count = 2 \<rparr>,
        item_log = [(file_deck, Success 1 1), (file_memo, Success 1 1)] \<rparr>)"
    using c d1 i1 d2 i2
    by (simp add: run_def good_env_simps loadPineconeState_def Let_def date_of_at success_def
          exit_code_of_def)
  show ?thesis
    using c ok r x g by simp
qed

section \<open>Documents whose file has left the repository\<close>

lemma map_of_catalog_match:
  "map_of (catalog_match m v) k =
     (if truthy (File_id (vector_metadata v)) \<and> the (File_id (vector_metadata v)) = k
      then (case map_of m k of
              None \<Rightarrow> Some \<lparr> cf_name = File_name (vector_metadata v),
                              cf_modifiedDate = File_modifiedDate (vector_metadata v),
                              cf_vectorIds = [vector_id v] \<rparr>
            | Some entry \<Rightarrow> Some (entry\<lparr>cf_vectorIds := cf_vectorIds entry @ [vector_id v]\<rparr>))
      else map_of m k)"
  by (auto simp: catalog_match_def Let_def map_of_map_set map_has_def map_get_def
           split: option.splits)

lemma catalog_grows:
  "map_of m k = Some e0 \<Longrightarrow>
   \<exists>e1. map_of (foldl catalog_match m ms) k = Some e1 \<and>
        set (cf_vectorIds e0) \<subseteq> set (cf_vectorIds e1)"
proof (induction ms arbitrary: m e0)
  case Nil
  then show ?case by simp
next
  case (Cons v ms)
  have "\<exists>e'. map_of (catalog_match m v) k = Some e' \<and>
             set (cf_vectorIds e0) \<subseteq> set (cf_vectorIds e')"
    using Cons.prems by (auto simp: map_of_catalog_match)
  then obtain e' where e': "map_of (catalog_match m v) k = Some e'"
    and sub: "set (cf_vectorIds e0) \<subseteq> set (cf_vectorIds e')"
    by blast
  from Cons.IH [OF e'] sub show ?case
    by auto
qed

lemma catalog_ids:
  assumes "v \<in> set ms" and "File_id (vector_metadata v) = Some k" and "k \<noteq> []"
  shows "\<exists>e1. map_of (foldl catalog_match m ms) k = Some e1 \<and> vector_id v \<in> set (cf_vectorIds e1)"
  using assms(1)
proof (induction ms arbitrary: m)
  case Nil
  then show ?case by simp
next
  case (Cons x ms)
  show ?case
  proof (cases "v = x")
    case True
    have t: "truthy (File_id (vector_metadata x))"
      using assms(2,3) True by (simp add: truthy_def)
    have "\<exists>e'. map_of (catalog_match m x) k = Some e' \<and> vector_id v \<in> set (cf_vectorIds e')"
      using t assms(2) True by (auto simp: map_of_catalog_match split: option.splits)
    then obtain e' where e': "map_of (catalog_match m x) k = Some e'"
      and mem: "vector_id v \<in> set (cf_vectorIds e')"
      by blast
    from catalog_grows [OF e', of ms] mem show ?thesis
      by auto
  next
    case False
    with Cons.prems have "v \<in> set ms" by simp
    from Cons.IH [OF this, of "catalog_match m x"] show ?thesis
      by simp
  qed
qed

lemma catalog_keys:
  "map_of (foldl catalog_match m ms) k \<noteq> None \<longleftrightarrow>
     map_of m k \<noteq> None \<or>
     (k \<noteq> [] \<and> (\<exists>v \<in> set ms. File_id (vector_metadata v) = Some k))"
proof (induction ms arbitrary: m)
  case Nil
  show ?case by simp
next
  case (Cons x ms)
  show ?case
    unfolding foldl_Cons Cons.IH
    by (auto simp: map_of_catalog_match truthy_def split: option.splits)
qed

lemma set_upsert1: "set (upsert1 idx v) \<subseteq> insert v (set idx)"
  by (auto simp: upsert1_def)

lemma set_index_upsert: "set (index_upsert idx batch) \<subseteq> set idx \<union> set batch"
  unfolding index_upsert_def
proof (induction batch arbitrary: idx)
  case Nil
  show ?case by simp
next
  case (Cons v batch)
  show ?case
    using Cons.IH [of "upsert1 idx v"] set_upsert1 [of idx v] by auto
qed

lemma set_uploadToPinecone:
  "uploadToPinecone e idx vectors = (r, idx') \<Longrightarrow> set idx' \<subseteq> set idx \<union> set vectors"
proof (induction e idx vectors rule: uploadToPinecone.induct)
  case (1 e idx vectors)
  show ?case
  proof (cases "vectors = []")
    case True
    with "1.prems" show ?thesis by (simp add: uploadToPinecone.simps [of e idx "[]"])
  next
    case False
    show ?thesis
    proof (cases "upsert_error e (take 200 vectors)")
      case (Some err)
      with False "1.prems" show ?thesis
        by (simp add: uploadToPinecone.simps [of e idx vectors])
    next
      case None
      with False "1.prems" have
        "uploadToPinecone e (index_upsert idx (take 200 vectors)) (drop 200 vectors) = (r, idx')"
        by (simp add: uploadToPinecone.simps [of e idx vectors])
      from "1.IH" [OF False None this]
      have "set idx' \<subseteq> set (index_upsert idx (take 200 vectors)) \<union> set (drop 200 vectors)" .
      moreover have "set (take 200 vectors) \<subseteq> set vectors" "set (drop 200 vectors) \<subseteq> set vectors"
        by (auto dest: in_set_takeD in_set_dropD)
      ultimately show ?thesis
        using set_index_upsert [of idx "take 200 vectors"] by blast
    qed
  qed
qed

lemma createVectors_from_File_id:
  "createVectors_from e f syncDate i cs n = (Inr vs, n') \<Longrightarrow>
   \<forall>v \<in> set vs. File_id (vector_metadata v) = Some (file_id f)"
proof (induction cs arbitrary: i n vs)
  case Nil
  then show ?case by simp
next
  case (Cons c cs)
  then show ?case
    by (auto simp: make_vector_def split: sum.splits prod.splits)
qed

lemma reindex_one_index:
  assumes "reindex_one e w m = (r, w')"
  shows "\<forall>v \<in> set (index w').
           v \<in> set (index w) \<or> File_id (vector_metadata v) = Some (file_id (mf_file m))"
proof (cases "deleteMany_error e (oldVectorIds m)")
  case (Some err)
  with assms show ?thesis by (simp add: reindex_one_def)
next
  case None
  let ?w1 = "w\<lparr>index := index_deleteMany (index w) (oldVectorIds m)\<rparr>"
  have sub: "set (index ?w1) \<subseteq> set (index w)"
    by (auto simp: index_deleteMany_def)
  show ?thesis
  proof (cases "extract_text e (mf_file m)")
    case (Inl err)
    with assms None sub show ?thesis by (auto simp: reindex_one_def Let_def)
  next
    case (Inr body)
    show ?thesis
    proof (cases "body = [] \<or> length (trim body) < 50")
      case True
      with assms None Inr sub show ?thesis by (auto simp: reindex_one_def Let_def)
    next
      case False
      obtain cv n where cv: "createVectors e (mf_file m) None (chunkText body 1000 200)
                               (uuid_count ?w1) = (cv, n)"
        by (cases "createVectors e (mf_file m) None (chunkText body 1000 200) (uuid_count ?w1)")
      show ?thesis
      proof (cases cv)
        case (Inl err)
        with assms None Inr False cv sub show ?thesis
          by (auto simp: reindex_one_def Let_def)
      next
        case (Inr vectors)
        obtain u idx where up: "uploadToPinecone e (index ?w1) vectors = (u, idx)"
          by (cases "uploadToPinecone e (index ?w1) vectors")
        have ids: "\<forall>v \<in> set vectors. File_id (vector_metadata v) = Some (file_id (mf_file m))"
          using cv Inr createVectors_from_File_id by (auto simp: createVectors_def)
        have "index w' = idx"
          using assms None \<open>extract_text e (mf_file m) = Inr body\<close> False cv Inr up
          by (cases u) (auto simp: reindex_one_def Let_def)
        then show ?thesis
          using set_uploadToPinecone [OF up] ids sub by auto
      qed
    qed
  qed
qed

lemma reindexModifiedFiles_index:
  "reindexModifiedFiles e dryRun ms (st, w) = (st', w') \<Longrightarrow>
   st_deletedFiles st' = st_deletedFiles st \<and>
   (\<forall>v \<in> set (index w').
      v \<in> set (index w) \<or>
      (\<exists>m \<in> set ms. File_id (vector_metadata v) = Some (file_id (mf_file m))))"
proof (induction ms arbitrary: st w)
  case Nil
  then show ?case by simp
next
  case (Cons m ms)
  show ?case
  proof (cases dryRun)
    case True
    with Cons.prems have "reindexModifiedFiles e dryRun ms (st, w) = (st', w')"
      by simp
    from Cons.IH [OF this] show ?thesis by auto
  next
    case False
    obtain r w1 where one: "reindex_one e w m = (r, w1)"
      by (cases "reindex_one e w m")
    let ?st1 = "case r of Some err \<Rightarrow> st\<lparr>errors := errors st @ [(file_name (mf_file m), err)]\<rparr>
                | None \<Rightarrow> st\<lparr>reindexed := reindexed st + 1\<rparr>"
    have "reindexModifiedFiles e dryRun ms (?st1, w1) = (st', w')"
      using Cons.prems False one by (cases r) simp_all
    from Cons.IH [OF this] reindex_one_index [OF one] show ?thesis
      by (cases r) auto
  qed
qed

lemma deleteRemovedFiles_index:
  assumes "\<forall>ids. deleteMany_error e ids = None"
  shows "deleteRemovedFiles e False ds (st, w) = (st', w') \<Longrightarrow>
         st_deletedFiles st' = st_deletedFiles st \<and>
         set (index w') = {v \<in> set (index w). \<forall>d \<in> set ds. vector_id v \<notin> set (df_vectorIds d)}"
proof (induction ds arbitrary: st w)
  case Nil
  then show ?case by simp
next
  case (Cons d ds)
  let ?w1 = "w\<lparr>index := index_deleteMany (index w) (df_vectorIds d)\<rparr>"
  from Cons.prems assms
  have "deleteRemovedFiles e False ds (st\<lparr>deleted := deleted st + 1\<rparr>, ?w1) = (st', w')"
    by simp
  from Cons.IH [OF this] show ?case
    by (auto simp: index_deleteMany_def)
qed

lemma compare_drive_files:
  "st_deletedFiles (foldl (compare_drive_file cat) st fs) = st_deletedFiles st \<and>
   mf_file ` set (st_modifiedFiles (foldl (compare_drive_file cat) st fs)) \<subseteq>
     mf_file ` set (st_modifiedFiles st) \<union> set fs"
proof (induction fs arbitrary: st)
  case Nil
  show ?case by simp
next
  case (Cons f fs)
  show ?case
    using Cons.IH [of "compare_drive_file cat st f"]
    by (auto simp: compare_drive_file_def split: option.splits if_splits)
qed

lemma compare_pinecone_files:
  "st_modifiedFiles (foldl (compare_pinecone_file dfs) st cat) = st_modifiedFiles st \<and>
   st_deletedFiles (foldl (compare_pinecone_file dfs) st cat) =
     st_deletedFiles st @
     map (\<lambda>(fileId, pf). \<lparr> df_fileId = fileId, df_name = cf_name pf,
                            df_vectorIds = cf_vectorIds pf \<rparr>)
         (filter (\<lambda>(fileId, pf). fileId \<notin> set (map file_id dfs)) cat)"
proof (induction cat arbitrary: st)
  case Nil
  show ?case by simp
next
  case (Cons c cat)
  show ?case
    using Cons.IH [of "compare_pinecone_file dfs st c"]
    by (cases c) (auto simp: compare_pinecone_file_def)
qed

lemma catalog_distinct:
  "distinct (map fst m) \<Longrightarrow> distinct (map fst (foldl catalog_match m ms))"
proof (induction ms arbitrary: m)
  case Nil
  then show ?case by simp
next
  case (Cons v ms)
  have "distinct (map fst (catalog_match m v))"
    using Cons.prems
    by (auto simp: catalog_match_def Let_def keys_map_set map_has_def map_of_eq_None_iff
             simp flip: set_map)
  from Cons.IH [OF this] show ?case by simp
qed

text \<open>
  Claim C2, as the code has it. In \<^verbatim>\<open>PineconeCatalogSyncer\<close> the documents classified
  as deleted are exactly the documents of the index that carry a document id which is
  the id of no Drive file of a supported format; names are not compared, and records
  without a document id are not considered. After a live \<open>sync\<close> in which no deletion
  raises an error, on an index of at most \<open>topK\<close> records, no record with the document
  id of a deleted document is left.
\<close>

theorem catalog_sync_deleted:
  assumes "scanGoogleDrive e = Inr allFiles"
      and "sync e False w = (Inr st, w')"
      and "length (index w) \<le> topK"
      and "\<forall>ids. deleteMany_error e ids = None"
  shows "df_fileId ` set (st_deletedFiles st) =
           {fid. fid \<noteq> [] \<and> (\<exists>v \<in> set (index w). File_id (vector_metadata v) = Some fid) \<and>
                 fid \<notin> file_id ` {f \<in> set allFiles. mimeType f \<in> set supportedTypes}} \<and>
         (\<forall>fid \<in> df_fileId ` set (st_deletedFiles st).
            \<forall>v \<in> set (index w'). File_id (vector_metadata v) \<noteq> Some fid)"
proof -
  let ?dfs = "filter (\<lambda>f. mimeType f \<in> set supportedTypes) allFiles"
  let ?cat = "foldl catalog_match [] (index w)"
  let ?st1 = "compareFiles ?dfs ?cat empty_stats"
  let ?st2 = "indexNewFiles False ?st1"
  let ?D = "map (\<lambda>(fileId, pf). \<lparr> df_fileId = fileId, df_name = cf_name pf,
                                   df_vectorIds = cf_vectorIds pf \<rparr>)
                (filter (\<lambda>(fileId, pf). fileId \<notin> set (map file_id ?dfs)) ?cat)"
  have d: "getDriveFiles e = Inr ?dfs"
    using assms(1) by (simp add: getDriveFiles_def)
  have q: "query_error e None = None"
    using assms(2) d by (cases "query_error e None") (simp_all add: sync_def getPineconeFiles_def)
  have p: "getPineconeFiles e w = Inr ?cat"
    using q assms(3) by (simp add: getPineconeFiles_def index_query_def)
  have del1: "st_deletedFiles ?st1 = ?D"
    using compare_pinecone_files [of ?dfs "foldl (compare_drive_file ?cat) empty_stats ?dfs" ?cat]
          compare_drive_files [of ?cat empty_stats ?dfs]
    by (simp add: compareFiles_def empty_stats_def)
  have mod1: "mf_file ` set (st_modifiedFiles ?st1) \<subseteq> set ?dfs"
    using compare_pinecone_files [of ?dfs "foldl (compare_drive_file ?cat) empty_stats ?dfs" ?cat]
          compare_drive_files [of ?cat empty_stats ?dfs]
    by (simp add: compareFiles_def empty_stats_def)
  have st2: "st_deletedFiles ?st2 = ?D" "st_modifiedFiles ?st2 = st_modifiedFiles ?st1"
    using del1 by (simp_all add: indexNewFiles_def)
  obtain stA wA where a: "reindexModifiedFiles e False (st_modifiedFiles ?st2) (?st2, w) = (stA, wA)"
    by (cases "reindexModifiedFiles e False (st_modifiedFiles ?st2) (?st2, w)")
  have b: "deleteRemovedFiles e False ?D (stA, wA) = (st, w')"
    using assms(2) d p a st2(1) by (simp add: sync_def Let_def split: prod.splits)
  from reindexModifiedFiles_index [OF a]
  have a1: "st_deletedFiles stA = ?D"
    and a2: "\<forall>v \<in> set (index wA). v \<in> set (index w) \<or>
               (\<exists>m \<in> set (st_modifiedFiles ?st2).
                  File_id (vector_metadata v) = Some (file_id (mf_file m)))"
    using st2(1) by auto
  from deleteRemovedFiles_index [OF assms(4) b]
  have b1: "st_deletedFiles st = ?D"
    and b2: "set (index w') = {v \<in> set (index wA). \<forall>d \<in> set ?D. vector_id v \<notin> set (df_vectorIds d)}"
    using a1 by auto
  have dist: "distinct (map fst ?cat)"
    by (rule catalog_distinct) simp
  have keys: "fid \<in> fst ` set ?cat \<longleftrightarrow>
                fid \<noteq> [] \<and> (\<exists>v \<in> set (index w). File_id (vector_metadata v) = Some fid)" for fid
    using catalog_keys [of "[]" "index w" fid] by (simp add: map_of_eq_None_iff)
  have ids: "df_fileId ` set ?D = {fid \<in> fst ` set ?cat. fid \<notin> file_id ` set ?dfs}"
    by force
  have part1: "df_fileId ` set (st_deletedFiles st) =
           {fid. fid \<noteq> [] \<and> (\<exists>v \<in> set (index w). File_id (vector_metadata v) = Some fid) \<and>
                 fid \<notin> file_id ` {f \<in> set allFiles. mimeType f \<in> set supportedTypes}}"
    unfolding b1 ids using keys by auto
  have part2: "File_id (vector_metadata v) \<noteq> Some fid"
    if fid: "fid \<in> df_fileId ` set (st_deletedFiles st)" and v: "v \<in> set (index w')" for fid v
  proof
    assume is_fid: "File_id (vector_metadata v) = Some fid"
    from fid obtain pf where pf: "(fid, pf) \<in> set ?cat" and nodrive: "fid \<notin> file_id ` set ?dfs"
      unfolding b1 by auto
    have inA: "v \<in> set (index wA)"
      and kept: "\<forall>d \<in> set ?D. vector_id v \<notin> set (df_vectorIds d)"
      using v b2 by auto
    have "v \<in> set (index w)"
    proof (rule ccontr)
      assume "v \<notin> set (index w)"
      with a2 inA obtain m where "m \<in> set (st_modifiedFiles ?st2)"
        and "File_id (vector_metadata v) = Some (file_id (mf_file m))"
        by blast
      with is_fid st2(2) mod1 have "fid \<in> file_id ` set ?dfs"
        by auto
      with nodrive show False by simp
    qed
    moreover have "fid \<noteq> []"
      using pf keys [of fid] by force
    ultimately obtain e1 where "map_of ?cat fid = Some e1" "vector_id v \<in> set (cf_vectorIds e1)"
      using catalog_ids [of v "index w" fid "[]"] is_fid by blast
    moreover have "map_of ?cat fid = Some pf"
      using dist pf by simp
    ultimately have "vector_id v \<in> set (cf_vectorIds pf)"
      by simp
    moreover have "\<lparr> df_fileId = fid, df_name = cf_name pf, df_vectorIds = cf_vectorIds pf \<rparr> \<in> set ?D"
      using pf nodrive by force
    ultimately show False
      using kept by force
  qed
  show ?thesis
    using part1 part2 by blast
qed

theorem catalog_sync_deleted_witness:
  "scanGoogleDrive (good_env [file_memo]) = Inr [file_memo] \<and>
   length (index orphan_world) \<le> topK \<and>
   (\<forall>ids. deleteMany_error (good_env [file_memo]) ids = None) \<and>
   sync (good_env [file_memo]) False orphan_world =
     (Inr \<lparr> st_newFiles = [file_memo], st_modifiedFiles = [], st_deletedFiles = [orphan_deleted],
             indexed = 0, reindexed = 0, deleted = 1,
             errors = [(''Memo'', ''Cannot read properties of undefined (reading 'downloadFile')'')] \<rparr>,
      \<lparr> index = [], uuid_count = 0 \<rparr>) \<and>
   list_all (\<lambda>v. File_id (vector_metadata v) \<noteq> Some ''gone'')
     (index (snd (sync (good_env [file_memo]) False orphan_world)))"
proof -
  let ?e = "good_env [file_memo]"
  let ?st = "\<lparr> st_newFiles = [file_memo], st_modifiedFiles = [], st_deletedFiles = [orphan_deleted],
             indexed = 0, reindexed = 0, deleted = 1,
             errors = [(''Memo'', ''Cannot read properties of undefined (reading 'downloadFile')'')] \<rparr>"
  have h1: "scanGoogleDrive ?e = Inr [file_memo]"
    by (simp add: good_env_simps)
  have h3: "length (index orphan_world) \<le> topK"
    by (simp add: orphan_world_def topK_ge_2)
  have h4: "\<forall>ids. deleteMany_error ?e ids = None"
    by (simp add: good_env_simps)
  have dfs: "getDriveFiles ?e = Inr [file_memo]"
    by (simp add: getDriveFiles_def good_env_simps supportedTypes_def file_memo_def mk_file_def
          blank_file_def)
  have cat: "getPineconeFiles ?e orphan_world =
               Inr [(''gone'', \<lparr> cf_name = Some ''Old Deck'', cf_modifiedDate = None,
                                  cf_vectorIds = [''x-1''] \<rparr>)]"
    unfolding getPineconeFiles_def query_small [OF h3]
    by (simp add: good_env_simps orphan_world_def
          orphan_chunk_def mk_vector_def blank_vector_def blank_metadata_def catalog_match_def
          truthy_def map_has_def map_set_def map_get_def Let_def)
  have s: "sync ?e False orphan_world = (Inr ?st, \<lparr> index = [], uuid_count = 0 \<rparr>)"
    unfolding sync_def dfs cat
    by (simp add: compareFiles_def compare_drive_file_def
          compare_pinecone_file_def empty_stats_def map_get_def file_simps indexNewFiles_def
          good_env_simps orphan_deleted_def orphan_world_def index_deleteMany_def
          orphan_chunk_def mk_vector_def blank_vector_def Let_def)
  have "''gone'' \<in> df_fileId ` set (st_deletedFiles ?st)"
    by (simp add: orphan_deleted_def)
  with catalog_sync_deleted [OF h1 s h3 h4]
  have "\<forall>v \<in> set (index \<lparr> index = [], uuid_count = 0 \<rparr>). File_id (vector_metadata v) \<noteq> Some ''gone''"
    by blast
  then show ?thesis
    using h1 h3 h4 s by (simp add: list_all_iff)
qed

text \<open>
  Claim C2 fails on the code of \<^verbatim>\<open>IntelligentSync\<close>, whose classifier returns three
  arrays (new, modified, unchanged) and whose run deletes only before re-indexing a
  MODIFIED file. The index holds a record of the document \<^verbatim>\<open>gone\<close>, named
  \<^verbatim>\<open>Old Deck\<close>; the only Drive file, \<^verbatim>\<open>Memo\<close>, matches it neither by id nor by name
  and is NEW. The run succeeds and the record of \<^verbatim>\<open>gone\<close> is still in the index.
\<close>

theorem unmatched_document_survives_run:
  "classifyChanges at_11 (detectDuplicates (filterFiles [file_memo]))
     (load_matches (index_query (index orphan_world) None)) =
     Inr \<lparr> newFiles = [file_memo], modifiedFiles = [], unchangedFiles = [] \<rparr> \<and>
   run (good_env [file_memo]) at_11 orphan_world =
     (Inr 0,
      \<lparr> final_world = \<lparr> index = [orphan_chunk, sole_vector file_memo 20000 0], uuid_count = 1 \<rparr>,
        item_log = [(file_memo, Success 1 1)] \<rparr>) \<and>
   File_id (vector_metadata orphan_chunk) = Some ''gone''"
proof -
  let ?e = "good_env [file_memo]"
  have n: "\<not> isSimilarName ''Memo'' ''Old Deck''" by code_simp
  have q: "index_query (index orphan_world) None = [orphan_chunk]"
    by (simp add: orphan_world_def query_small topK_ge_2)
  have st: "load_matches [orphan_chunk] =
              \<lparr> pineconeFiles = [(''gone'', new_pinecone_data orphan_chunk (Some ''gone'') True)],
                pineconeFilesByName = [], latestSyncDate = Some 19990 \<rparr>"
    by (simp add: load_matches_def load_match_def empty_state_def orphan_chunk_def mk_vector_def
          blank_vector_def blank_metadata_def truthy_def count_vector_def map_get_def
          map_set_def map_has_def Let_def)
  have nm: "pd_File_name (new_pinecone_data orphan_chunk (Some ''gone'') True) = Some ''Old Deck''"
    by (simp add: new_pinecone_data_def orphan_chunk_def mk_vector_def blank_vector_def
          blank_metadata_def)
  have c: "classifyChanges at_11 (detectDuplicates (filterFiles [file_memo]))
     (load_matches (index_query (index orphan_world) None)) =
     Inr \<lparr> newFiles = [file_memo], modifiedFiles = [], unchangedFiles = [] \<rparr>"
    by (simp add: q st filterFiles_cases detectDuplicates_cases classifyChanges_def
          classify_file_def find_pineconeData_def map_get_def file_simps allPineconeFiles_def
          map_values_def nm n push_verdict_def)
  have i: "indexFile ?e 20000 orphan_world file_memo =
             (Success 1 1,
              \<lparr> index = [orphan_chunk, sole_vector file_memo 20000 0], uuid_count = 1 \<rparr>)"
    using indexFile_sole [of ?e file_memo orphan_world 20000]
    by (simp add: extract_good good_env_simps orphan_world_def upsert1_def sole_vector_simps
          file_simps orphan_chunk_def mk_vector_def blank_vector_def)
  have r: "run ?e at_11 orphan_world =
     (Inr 0,
      \<lparr> final_world = \<lparr> index = [orphan_chunk, sole_vector file_memo 20000 0], uuid_count = 1 \<rparr>,
        item_log = [(file_memo, Success 1 1)] \<rparr>)"
    using c
    by (simp add: run_def good_env_simps loadPineconeState_def Let_def date_of_at i success_def
          exit_code_of_def)
  have "File_id (vector_metadata orphan_chunk) = Some ''gone''"
    by (simp add: orphan_chunk_def mk_vector_def blank_vector_def blank_metadata_def)
  then show ?thesis using c r by simp
qed

section \<open>Two runs in succession\<close>

subsection \<open>Chunking a text that is not blank\<close>





subsection \<open>What a successful call of indexFile writes\<close>




lemma success_cases: "success r \<longleftrightarrow> (\<exists>a b. r = Success a b)"
  by (cases r) (simp_all add: success_def)



subsection \<open>The two loops of a run without failures\<close>




subsection \<open>Reading the index back\<close>




subsection \<open>What a run with exit code 0 has written\<close>



subsection \<open>The classification, file by file\<close>






subsection \<open>The second run\<close>



subsection \<open>Two runs on concrete inputs\<close>










end
